theory Spec2Isabelle
  imports Main "HOL-Library.Char_ord" "HOL-Library.List_Lexorder"
begin

section \<open>Values of the program\<close>

text \<open>
  The exceptions that the pipeline of \<^verbatim>\<open>JLFileHandler.py\<close> can meet. A raised exception
  is the left injection of a sum; a value returned by a function is the right one.
  \<open>ReError\<close> is Python's \<^verbatim>\<open>re.error\<close>, \<open>ParserError\<close> is \<^verbatim>\<open>pandas.errors.ParserError\<close>.

  The calls into \<^verbatim>\<open>pandas\<close> and \<^verbatim>\<open>re\<close> are modelled by what they do with the values the
  pipeline hands them. Where such a call is modelled in part only, the model raises on
  the rest, so that a value returned by the model is a value the code returns.
\<close>

datatype py_exception =
  FileNotFoundError | ParserError | KeyError | ValueError | AttributeError
  | TypeError | IndexError | ReError | OSError

text \<open>\<^verbatim>\<open>JLError.py\<close>: an error is an object holding a message; \<^verbatim>\<open>__str__\<close> returns it.\<close>

datatype JLError = JLError (message: string)

text \<open>
  A cell of a table as the pandas readers type it: a text, a number, or a missing value.
  The elements of a \<open>string\<close> stand for the code points of a Python \<^verbatim>\<open>str\<close>.
\<close>

datatype cell = Str string | Num int | NaN

text \<open>
  A \<^verbatim>\<open>DataFrame\<close>: the column names and the rows, each row with its index label and
  its cells in the order of the columns. A \<^verbatim>\<open>Series\<close> is a list of labelled cells.
\<close>

record dataframe =
  columns :: "string list"
  rows :: "(nat \<times> cell list) list"

type_synonym series = "(nat \<times> cell) list"

section \<open>Files and the two pandas readers\<close>

text \<open>
  A file holds comma-separated text (a header line and data lines), a workbook (whose
  first sheet has a header row and data rows), or something no reader accepts. The world
  of one run is the disk, the paths that can be opened for writing, and the log of the
  reads that were attempted.
\<close>

datatype file_content =
  CsvFile "string list" "cell list list"
  | ExcelFile "string list" "cell list list"
  | OtherFile

datatype reader = ReadExcel | ReadCsv

record world =
  disk :: "string \<Rightarrow> file_content option"
  writable :: "string \<Rightarrow> bool"
  reads :: "(reader \<times> string) list"

text \<open>A reader numbers the rows it loads from 0 (pandas' \<^verbatim>\<open>RangeIndex\<close>).\<close>

definition frame_of :: "string list \<Rightarrow> cell list list \<Rightarrow> dataframe" where
  "frame_of header body = \<lparr>columns = header, rows = List.enumerate 0 body\<rparr>"

fun parse :: "reader \<Rightarrow> file_content \<Rightarrow> py_exception + dataframe" where
  "parse ReadCsv (CsvFile header body) = Inr (frame_of header body)"
| "parse ReadExcel (ExcelFile header body) = Inr (frame_of header body)"
| "parse ReadCsv _ = Inl ParserError"
| "parse ReadExcel _ = Inl ValueError"

text \<open>
  \<^verbatim>\<open>pd.read_excel(file)\<close> and \<^verbatim>\<open>pd.read_csv(file)\<close>: the attempt is logged; a path with
  no file raises \<^verbatim>\<open>FileNotFoundError\<close>.
\<close>

definition pd_read :: "reader \<Rightarrow> string \<Rightarrow> world \<Rightarrow> (py_exception + dataframe) \<times> world" where
  "pd_read r path w =
     ((case disk w path of None \<Rightarrow> Inl FileNotFoundError | Some f \<Rightarrow> parse r f),
      w\<lparr>reads := reads w @ [(r, path)]\<rparr>)"

section \<open>The loader\<close>

text \<open>\<^verbatim>\<open>str.split(sep)\<close> for a one-character separator: never an empty list.\<close>

fun split_on :: "char \<Rightarrow> string \<Rightarrow> string list" where
  "split_on sep [] = [[]]"
| "split_on sep (c # cs) =
     (if c = sep then [] # split_on sep cs
      else (case split_on sep cs of [] \<Rightarrow> [[c]] | s # ss \<Rightarrow> (c # s) # ss))"

definition supported_file_types :: "string set" where
  "supported_file_types = {''xls'', ''xlsx'', ''csv''}"

definition unsupported_message :: string where
  "unsupported_message =
     ''Unsupported file type.'' @ [CHR 0x0A] @ ''Please use only excel or csv files.''"

text \<open>\<^verbatim>\<open>_check_file_extension\<close>: \<^verbatim>\<open>file.split(".")[-1]\<close> is looked up in the supported set.\<close>

definition check_file_extension :: "string \<Rightarrow> JLError + string" where
  "check_file_extension file =
     (let file_extension = last (split_on CHR ''.'' file)
      in if file_extension \<in> supported_file_types then Inr file_extension
         else Inl (JLError unsupported_message))"

text \<open>The dictionary \<^verbatim>\<open>supported_methods\<close> of \<^verbatim>\<open>_load_data\<close>.\<close>

definition supported_methods :: "string \<rightharpoonup> reader" where
  "supported_methods =
     [''xls'' \<mapsto> ReadExcel, ''xlsx'' \<mapsto> ReadExcel, ''csv'' \<mapsto> ReadCsv]"

text \<open>
  \<^verbatim>\<open>_load_data\<close>: the extension is checked first; only \<^verbatim>\<open>FileNotFoundError\<close> is caught,
  every other exception of the reader escapes.
\<close>

definition load_data :: "string \<Rightarrow> world \<Rightarrow> (py_exception + (JLError + dataframe)) \<times> world" where
  "load_data file w =
     (case check_file_extension file of
        Inl error \<Rightarrow> (Inr (Inl error), w)
      | Inr file_type \<Rightarrow>
          (case supported_methods file_type of
             None \<Rightarrow> (Inl KeyError, w)
           | Some method \<Rightarrow>
               (case pd_read method file w of
                  (Inl FileNotFoundError, w') \<Rightarrow> (Inr (Inl (JLError ''File not found!'')), w')
                | (Inl e, w') \<Rightarrow> (Inl e, w')
                | (Inr raw_data, w') \<Rightarrow> (Inr (Inr raw_data), w'))))"

section \<open>Regular expressions of the export normalizer\<close>

text \<open>The character class \<^verbatim>\<open>[0-9]\<close>.\<close>

definition digit :: "char \<Rightarrow> bool" where
  "digit c = (c \<in> set ''0123456789'')"

text \<open>Whether the pattern \<^verbatim>\<open>[0-9]{2}\.[0-9]{1}\<close> matches at the start of a string.\<close>

fun pi_at :: "string \<Rightarrow> bool" where
  "pi_at (a # b # c # d # rest) = (digit a \<and> digit b \<and> c = CHR ''.'' \<and> digit d)"
| "pi_at _ = False"

text \<open>
  \<^verbatim>\<open>re.search(pattern, s)\<close> for that pattern: the leftmost match (\<^verbatim>\<open>group(0)\<close>), or
  \<^verbatim>\<open>None\<close>.
\<close>

fun re_search_pi :: "string \<Rightarrow> string option" where
  "re_search_pi [] = None"
| "re_search_pi (c # cs) = (if pi_at (c # cs) then Some (take 4 (c # cs)) else re_search_pi cs)"

text \<open>
  The replacement argument of \<^verbatim>\<open>re.sub\<close> is a template in which a backslash starts an
  escape. A replacement without backslash stands for itself; the replacement made of one
  backslash is rejected with \<^verbatim>\<open>re.error\<close>. The normalizer passes a match of the pattern
  above and a single character (lemmas \<open>current_pi_no_backslash\<close> and
  \<open>latest_sprint_one_char\<close>), so these are the cases it can reach; this model rejects
  every other replacement that holds a backslash as well.
\<close>

definition re_template :: "string \<Rightarrow> py_exception + string" where
  "re_template repl = (if CHR 0x5C \<in> set repl then Inl ReError else Inr repl)"

text \<open>
  \<^verbatim>\<open>re.sub(r'[0-9]{2}\.[0-9]{1}', repl, s)\<close> with an expanded replacement: every match,
  from the left, without overlap.
\<close>

fun sub_pi :: "string \<Rightarrow> string \<Rightarrow> string" where
  "sub_pi repl (a # b # c # d # rest) =
     (if digit a \<and> digit b \<and> c = CHR ''.'' \<and> digit d then repl @ sub_pi repl rest
      else a # sub_pi repl (b # c # d # rest))"
| "sub_pi repl s = s"

text \<open>
  \<^verbatim>\<open>re.sub(r'[0-9]{1}$', repl, s)\<close> with an expanded replacement: \<^verbatim>\<open>$\<close> holds at the end
  of the string and before a newline that ends the string.
\<close>

fun sub_sprint :: "string \<Rightarrow> string \<Rightarrow> string" where
  "sub_sprint repl [] = []"
| "sub_sprint repl [c] = (if digit c then repl else [c])"
| "sub_sprint repl (c # n # cs) =
     (if cs = [] \<and> digit c \<and> n = CHR 0x0A then repl @ [n]
      else c # sub_sprint repl (n # cs))"

definition re_sub_pi :: "string \<Rightarrow> cell \<Rightarrow> py_exception + string" where
  "re_sub_pi repl v =
     (case re_template repl of
        Inl e \<Rightarrow> Inl e
      | Inr t \<Rightarrow> (case v of Str s \<Rightarrow> Inr (sub_pi t s) | _ \<Rightarrow> Inl TypeError))"

definition re_sub_sprint :: "string \<Rightarrow> string \<Rightarrow> py_exception + string" where
  "re_sub_sprint repl s =
     (case re_template repl of Inl e \<Rightarrow> Inl e | Inr t \<Rightarrow> Inr (sub_sprint t s))"

section \<open>Period inference\<close>

text \<open>Python's \<^verbatim>\<open>max\<close> of a list of strings: \<^verbatim>\<open>ValueError\<close> on the empty list.\<close>

fun py_max :: "string list \<Rightarrow> py_exception + string" where
  "py_max [] = Inl ValueError"
| "py_max (x # xs) = Inr (fold max xs x)"

text \<open>
  The comprehension of \<^verbatim>\<open>_determine_current_pi\<close>, in the order of the values:
  \<^verbatim>\<open>re.search\<close> raises \<^verbatim>\<open>TypeError\<close> on a value that is no string, and \<^verbatim>\<open>.group(0)\<close>
  raises \<^verbatim>\<open>AttributeError\<close> on \<^verbatim>\<open>None\<close>.
\<close>

fun pi_matches :: "cell list \<Rightarrow> py_exception + string list" where
  "pi_matches [] = Inr []"
| "pi_matches (Str s # vs) =
     (case re_search_pi s of
        None \<Rightarrow> Inl AttributeError
      | Some m \<Rightarrow> (case pi_matches vs of Inl e \<Rightarrow> Inl e | Inr ms \<Rightarrow> Inr (m # ms)))"
| "pi_matches (_ # vs) = Inl TypeError"

definition determine_current_pi :: "series \<Rightarrow> py_exception + string" where
  "determine_current_pi sprints =
     (case pi_matches (map snd sprints) of Inl e \<Rightarrow> Inl e | Inr ms \<Rightarrow> py_max ms)"

text \<open>The substring test \<^verbatim>\<open>current_pi in sprint\<close>.\<close>

fun contains :: "string \<Rightarrow> string \<Rightarrow> bool" where
  "contains [] sub = (sub = [])"
| "contains (c # cs) sub = (take (length sub) (c # cs) = sub \<or> contains cs sub)"

text \<open>
  The comprehension of \<^verbatim>\<open>_determine_latest_sprint\<close>: the test \<^verbatim>\<open>in\<close> raises
  \<^verbatim>\<open>TypeError\<close> on a value that is no string, \<^verbatim>\<open>sprint[-1]\<close> raises \<^verbatim>\<open>IndexError\<close> on the
  empty string.
\<close>

fun last_chars :: "string \<Rightarrow> cell list \<Rightarrow> py_exception + string list" where
  "last_chars current_pi [] = Inr []"
| "last_chars current_pi (Str sprint # vs) =
     (if contains sprint current_pi then
        (if sprint = [] then Inl IndexError
         else (case last_chars current_pi vs of
                 Inl e \<Rightarrow> Inl e
               | Inr ls \<Rightarrow> Inr ([last sprint] # ls)))
      else last_chars current_pi vs)"
| "last_chars current_pi (_ # vs) = Inl TypeError"

definition determine_latest_sprint :: "series \<Rightarrow> string \<Rightarrow> py_exception + string" where
  "determine_latest_sprint sprints current_pi =
     (case last_chars current_pi (map snd sprints) of Inl e \<Rightarrow> Inl e | Inr ls \<Rightarrow> py_max ls)"

text \<open>
  \<^verbatim>\<open>_compose_query\<close>: \<^verbatim>\<open>sprints[0]\<close> on a \<^verbatim>\<open>Series\<close> with integer labels is a lookup of
  the label 0, and raises \<^verbatim>\<open>KeyError\<close> when no row carries it. A Python list is the
  series labelled from 0.
\<close>

definition compose_query :: "series \<Rightarrow> string \<Rightarrow> string \<Rightarrow> py_exception + string" where
  "compose_query sprints current_pi current_sprint =
     (case map_of sprints 0 of
        None \<Rightarrow> Inl KeyError
      | Some raw_data \<Rightarrow>
          (case re_sub_pi current_pi raw_data of
             Inl e \<Rightarrow> Inl e
           | Inr modified_query \<Rightarrow> re_sub_sprint current_sprint modified_query))"

section \<open>Operations on data frames\<close>

text \<open>The cell of a row under a column; a row shorter than the header reads as missing.\<close>

definition cell_of :: "string list \<Rightarrow> cell list \<Rightarrow> string \<Rightarrow> cell" where
  "cell_of cols cells c = (case map_of (zip cols cells) c of Some v \<Rightarrow> v | None \<Rightarrow> NaN)"

text \<open>\<^verbatim>\<open>df[[c1, ..., cn]]\<close>: \<^verbatim>\<open>KeyError\<close> when a name is no column of the frame.\<close>

definition select_columns :: "string list \<Rightarrow> dataframe \<Rightarrow> py_exception + dataframe" where
  "select_columns wanted df =
     (if set wanted \<subseteq> set (columns df) then
        Inr \<lparr>columns = wanted,
             rows = map (\<lambda>(i, cells). (i, map (cell_of (columns df) cells) wanted)) (rows df)\<rparr>
      else Inl KeyError)"

text \<open>\<^verbatim>\<open>df.rename(columns={old: new})\<close>.\<close>

definition rename_column :: "string \<Rightarrow> string \<Rightarrow> dataframe \<Rightarrow> dataframe" where
  "rename_column old new df = df\<lparr>columns := map (\<lambda>c. if c = old then new else c) (columns df)\<rparr>"

text \<open>\<^verbatim>\<open>df.query("col == value")\<close>: the rows keep their index labels.\<close>

definition query_eq :: "string \<Rightarrow> string \<Rightarrow> dataframe \<Rightarrow> dataframe" where
  "query_eq col v df =
     df\<lparr>rows := filter (\<lambda>(i, cells). cell_of (columns df) cells col = Str v) (rows df)\<rparr>"

text \<open>\<^verbatim>\<open>df.loc[:, col]\<close>.\<close>

definition loc_column :: "string \<Rightarrow> dataframe \<Rightarrow> series" where
  "loc_column col df = map (\<lambda>(i, cells). (i, cell_of (columns df) cells col)) (rows df)"

text \<open>
  \<^verbatim>\<open>pd.merge(left, right, on=[key])\<close>, the inner join: every left row, in order, is paired
  with every right row that has an equal key (missing keys pair with each other); the
  key column appears once and the result is numbered from 0. The frames merged here
  share no other column name.

  pandas refuses, with \<^verbatim>\<open>ValueError\<close>, to merge a key column of texts with a key column
  of numbers. The dtype of a column is not part of this model: the refusal is taken
  whenever one key column holds a text and the other one, not empty, holds none.
\<close>

fun is_text :: "cell \<Rightarrow> bool" where
  "is_text (Str s) = True"
| "is_text _ = False"

definition key_cells :: "string \<Rightarrow> dataframe \<Rightarrow> cell list" where
  "key_cells key df = map (\<lambda>(i, cells). cell_of (columns df) cells key) (rows df)"

definition merge_refused :: "cell list \<Rightarrow> cell list \<Rightarrow> bool" where
  "merge_refused lk rk =
     (list_ex is_text lk \<and> \<not> list_ex is_text rk \<and> rk \<noteq> []
      \<or> list_ex is_text rk \<and> \<not> list_ex is_text lk \<and> lk \<noteq> [])"

definition drop_column :: "string \<Rightarrow> string list \<Rightarrow> cell list \<Rightarrow> cell list" where
  "drop_column key cols cells = map snd (filter (\<lambda>(c, v). c \<noteq> key) (zip cols cells))"

definition pd_merge :: "dataframe \<Rightarrow> dataframe \<Rightarrow> string \<Rightarrow> py_exception + dataframe" where
  "pd_merge left right key =
     (if \<not> (key \<in> set (columns left) \<and> key \<in> set (columns right)) then Inl KeyError
      else if merge_refused (key_cells key left) (key_cells key right) then Inl ValueError
      else
        Inr \<lparr>columns = columns left @ filter (\<lambda>c. c \<noteq> key) (columns right),
             rows = List.enumerate 0
               (concat (map (\<lambda>(i, l).
                  map (\<lambda>(j, r). l @ drop_column key (columns right) r)
                    (filter (\<lambda>(j, r). cell_of (columns right) r key = cell_of (columns left) l key)
                       (rows right)))
                  (rows left)))\<rparr>)"

text \<open>\<^verbatim>\<open>sep.join(items)\<close>: \<^verbatim>\<open>TypeError\<close> on an item that is no string.\<close>

fun py_join :: "string \<Rightarrow> cell list \<Rightarrow> py_exception + string" where
  "py_join sep [] = Inr []"
| "py_join sep [Str a] = Inr a"
| "py_join sep (Str a # v # vs) =
     (case py_join sep (v # vs) of Inl e \<Rightarrow> Inl e | Inr r \<Rightarrow> Inr (a @ sep @ r))"
| "py_join sep (_ # vs) = Inl TypeError"

text \<open>\<^verbatim>\<open>df.apply(sep.join, axis=1)\<close>: the rows are visited in order.\<close>

fun apply_join :: "string \<Rightarrow> (nat \<times> cell list) list \<Rightarrow> py_exception + string list" where
  "apply_join sep [] = Inr []"
| "apply_join sep ((i, cells) # rest) =
     (case py_join sep cells of
        Inl e \<Rightarrow> Inl e
      | Inr s \<Rightarrow> (case apply_join sep rest of Inl e \<Rightarrow> Inl e | Inr ss \<Rightarrow> Inr (s # ss)))"

text \<open>
  \<^verbatim>\<open>df[col] = df[[a, b]].apply(sep.join, axis=1)\<close> computes the values first. On a frame
  without rows, \<^verbatim>\<open>apply\<close> tries the function on a row of missing values, swallows its
  \<^verbatim>\<open>TypeError\<close> and hands back the two-column frame itself, which the assignment to one
  column rejects with \<^verbatim>\<open>ValueError\<close>.
\<close>

definition df_apply_join :: "string \<Rightarrow> dataframe \<Rightarrow> py_exception + string list" where
  "df_apply_join sep df = (if rows df = [] then Inl ValueError else apply_join sep (rows df))"

text \<open>\<^verbatim>\<open>df[col] = values\<close> for a column the frame already has.\<close>

definition set_cell :: "string list \<Rightarrow> string \<Rightarrow> cell \<Rightarrow> cell list \<Rightarrow> cell list" where
  "set_cell cols col v cells = map (\<lambda>(c, old). if c = col then v else old) (zip cols cells)"

definition assign_column :: "string \<Rightarrow> string list \<Rightarrow> dataframe \<Rightarrow> dataframe" where
  "assign_column col values df =
     df\<lparr>rows := map (\<lambda>((i, cells), v). (i, set_cell (columns df) col (Str v) cells))
                  (zip (rows df) values)\<rparr>"

text \<open>
  \<^verbatim>\<open>df.to_csv(path, columns=cols, index=False)\<close>: a header line with the chosen columns
  and one line per row with the cells of these columns, without the index labels.
  \<^verbatim>\<open>KeyError\<close> when a chosen column is missing, \<^verbatim>\<open>OSError\<close> when the path cannot be opened
  for writing.
\<close>

definition to_csv :: "string \<Rightarrow> string list \<Rightarrow> dataframe \<Rightarrow> world \<Rightarrow> (py_exception + unit) \<times> world" where
  "to_csv path cols df w =
     (if \<not> set cols \<subseteq> set (columns df) then (Inl KeyError, w)
      else if \<not> writable w path then (Inl OSError, w)
      else (Inr (),
            w\<lparr>disk := (disk w)(path \<mapsto>
                 CsvFile cols (map (\<lambda>(i, cells). map (cell_of (columns df) cells) cols) (rows df)))\<rparr>))"

section \<open>The normalizers\<close>

definition missing_columns_message :: string where
  "missing_columns_message =
     ''One or more table columns missing.'' @ [CHR 0x0A]
       @ ''Please check if table is in expected format.''"

definition export_columns :: "string list" where
  "export_columns =
     [''Summary'', ''Issue key'', ''Issue Type'', ''Custom field (Feature Link)'', ''Sprint'']"

definition map_columns :: "string list" where
  "map_columns = [''Feature'', ''Label'']"

text \<open>
  The body of \<^verbatim>\<open>_normalize_jira_export_file\<close> after the load: only the \<^verbatim>\<open>KeyError\<close> of
  the column selection is caught; period inference and query composition are outside
  every \<^verbatim>\<open>try\<close>.
\<close>

definition normalize_export :: "dataframe \<Rightarrow> py_exception + (JLError + dataframe)" where
  "normalize_export file_extraction_result =
     (case select_columns export_columns file_extraction_result of
        Inl KeyError \<Rightarrow> Inr (Inl (JLError missing_columns_message))
      | Inl e \<Rightarrow> Inl e
      | Inr selected \<Rightarrow>
          (let renamed = rename_column ''Custom field (Feature Link)'' ''Feature'' selected;
               truncated_data = query_eq ''Issue Type'' ''Story'' renamed;
               sprints_info = loc_column ''Sprint'' truncated_data
           in case determine_current_pi sprints_info of
                Inl e \<Rightarrow> Inl e
              | Inr active_pi \<Rightarrow>
                  (case determine_latest_sprint sprints_info active_pi of
                     Inl e \<Rightarrow> Inl e
                   | Inr active_sprint \<Rightarrow>
                       (case compose_query sprints_info active_pi active_sprint of
                          Inl e \<Rightarrow> Inl e
                        | Inr query \<Rightarrow> Inr (Inr (query_eq ''Sprint'' query truncated_data))))))"

definition normalize_jira_export_file ::
    "string \<Rightarrow> world \<Rightarrow> (py_exception + (JLError + dataframe)) \<times> world" where
  "normalize_jira_export_file file w =
     (case load_data file w of
        (Inl e, w') \<Rightarrow> (Inl e, w')
      | (Inr (Inl error), w') \<Rightarrow> (Inr (Inl error), w')
      | (Inr (Inr file_extraction_result), w') \<Rightarrow> (normalize_export file_extraction_result, w'))"

text \<open>The body of \<^verbatim>\<open>_normalize_map_file\<close> after the load.\<close>

definition normalize_map :: "dataframe \<Rightarrow> py_exception + (JLError + dataframe)" where
  "normalize_map file_extraction_result =
     (case select_columns map_columns file_extraction_result of
        Inl KeyError \<Rightarrow> Inr (Inl (JLError missing_columns_message))
      | Inl e \<Rightarrow> Inl e
      | Inr normalized_map_data \<Rightarrow> Inr (Inr normalized_map_data))"

definition normalize_map_file ::
    "string \<Rightarrow> world \<Rightarrow> (py_exception + (JLError + dataframe)) \<times> world" where
  "normalize_map_file file w =
     (case load_data file w of
        (Inl e, w') \<Rightarrow> (Inl e, w')
      | (Inr (Inl error), w') \<Rightarrow> (Inr (Inl error), w')
      | (Inr (Inr file_extraction_result), w') \<Rightarrow> (normalize_map file_extraction_result, w'))"

section \<open>Merge and export\<close>

text \<open>
  The part of \<^verbatim>\<open>_merge_files\<close> that follows the two normalizations: the three error
  cases, then the join and the new \<^verbatim>\<open>Summary\<close> column.
\<close>

definition merge_normalized ::
    "JLError + dataframe \<Rightarrow> JLError + dataframe \<Rightarrow> py_exception + (JLError + dataframe)" where
  "merge_normalized normalized_jira_output_result normalized_map_file_result =
     (case (normalized_jira_output_result, normalized_map_file_result) of
        (Inl e1, Inl e2) \<Rightarrow>
          Inr (Inl (JLError (message e1 @ ''(from Jira extraction file) and'' @ [CHR 0x0A]
                              @ message e2 @ '' (from map file)'')))
      | (Inl e1, Inr _) \<Rightarrow> Inr (Inl (JLError (message e1 @ '' (from Jira extraction file)'')))
      | (Inr _, Inl e2) \<Rightarrow> Inr (Inl (JLError (message e2 @ '' (from map file)'')))
      | (Inr jira, Inr mapping) \<Rightarrow>
          (case pd_merge jira mapping ''Feature'' of
             Inl e \<Rightarrow> Inl e
           | Inr merged_data \<Rightarrow>
               (case select_columns [''Issue key'', ''Summary''] merged_data of
                  Inl e \<Rightarrow> Inl e
                | Inr pair \<Rightarrow>
                    (case df_apply_join '' '' pair of
                       Inl e \<Rightarrow> Inl e
                     | Inr summaries \<Rightarrow>
                         Inr (Inr (assign_column ''Summary'' summaries merged_data))))))"

text \<open>
  \<^verbatim>\<open>_merge_files\<close>: the export is normalized first, then the map file; an exception of
  the first ends the call before the second is read.
\<close>

definition merge_files ::
    "string \<Rightarrow> string \<Rightarrow> world \<Rightarrow> (py_exception + (JLError + dataframe)) \<times> world" where
  "merge_files file map_file w =
     (case normalize_jira_export_file file w of
        (Inl e, w1) \<Rightarrow> (Inl e, w1)
      | (Inr normalized_jira_output_result, w1) \<Rightarrow>
          (case normalize_map_file map_file w1 of
             (Inl e, w2) \<Rightarrow> (Inl e, w2)
           | (Inr normalized_map_file_result, w2) \<Rightarrow>
               (merge_normalized normalized_jira_output_result normalized_map_file_result, w2)))"

definition output_columns :: "string list" where
  "output_columns = [''Issue Type'', ''Summary'', ''Label'']"

text \<open>\<^verbatim>\<open>generate_csv\<close>: the value is the returned string, or the exception that escapes.\<close>

definition generate_csv :: "string \<Rightarrow> string \<Rightarrow> string \<Rightarrow> world \<Rightarrow> (py_exception + string) \<times> world" where
  "generate_csv jira_file map_file export_file_name w =
     (case merge_files jira_file map_file w of
        (Inl e, w') \<Rightarrow> (Inl e, w')
      | (Inr (Inl error), w') \<Rightarrow> (Inr (message error), w')
      | (Inr (Inr table_to_export_result), w') \<Rightarrow>
          (case to_csv (export_file_name @ ''.csv'') output_columns table_to_export_result w' of
             (Inl e, w'') \<Rightarrow> (Inl e, w'')
           | (Inr _, w'') \<Rightarrow> (Inr ''CSV file generated successfully!'', w'')))"

text \<open>
  \<^verbatim>\<open>generate\<close> of \<^verbatim>\<open>JiraLand.py\<close>: the four strings of the window; the value is the text
  of the popup.
\<close>

definition generate :: "string \<Rightarrow> string \<Rightarrow> string \<Rightarrow> string \<Rightarrow> world \<Rightarrow> (py_exception + string) \<times> world" where
  "generate jira_file map_file destination_folder csv_file_name w =
     (if jira_file \<noteq> [] \<and> map_file \<noteq> [] \<and> destination_folder \<noteq> [] \<and> csv_file_name \<noteq> [] then
        generate_csv jira_file map_file (destination_folder @ ''/'' @ csv_file_name) w
      else (Inr ''You need to fill all the information above first!'', w))"

section \<open>The specification's wording and example inputs\<close>

text \<open>
  The extension as the specification words it: the substring after the last dot of the
  path, or the whole path when it has no dot.
\<close>

definition after_last_dot :: "string \<Rightarrow> string" where
  "after_last_dot path = rev (takeWhile (\<lambda>c. c \<noteq> CHR ''.'') (rev path))"

text \<open>The values of the column \<^verbatim>\<open>Feature\<close> of a frame.\<close>

definition feature_values :: "dataframe \<Rightarrow> cell set" where
  "feature_values df = snd ` set (loc_column ''Feature'' df)"

text \<open>A disk without files, where every path can be written.\<close>

definition no_files :: world where
  "no_files = \<lparr>disk = (\<lambda>path. None), writable = (\<lambda>path. True), reads = []\<rparr>"

text \<open>
  An export with three stories and a task, a map workbook, and the world that holds
  both; only the report in \<^verbatim>\<open>out\<close> can be written.
\<close>

definition sprint_header :: "string list" where
  "sprint_header =
     [''Issue key'', ''Summary'', ''Issue Type'', ''Custom field (Feature Link)'', ''Sprint'',
      ''Status'']"

definition sprint_body :: "cell list list" where
  "sprint_body =
     [[Str ''JL-1'', Str ''Login page'', Str ''Story'', Str ''F-1'', Str ''PI23.1 Sprint 4'',
       Str ''Done''],
      [Str ''JL-2'', Str ''Fix build'', Str ''Task'', Str ''F-1'', Str ''PI23.2 Sprint 3'',
       Str ''Open''],
      [Str ''JL-3'', Str ''Search'', Str ''Story'', Str ''F-2'', Str ''PI23.2 Sprint 1'',
       Str ''Done''],
      [Str ''JL-4'', Str ''Export'', Str ''Story'', Str ''F-3'', Str ''PI23.2 Sprint 3'',
       Str ''Open'']]"

definition sprint_export :: file_content where
  "sprint_export = CsvFile sprint_header sprint_body"

definition feature_map :: file_content where
  "feature_map =
     ExcelFile [''Feature'', ''Label'', ''Owner'']
       [[Str ''F-1'', Str ''Accounts'', Str ''Ana''],
        [Str ''F-3'', Str ''Reports'', Str ''Ben''],
        [Str ''F-4'', Str ''Billing'', NaN]]"

definition office :: world where
  "office =
     \<lparr>disk = [''export.csv'' \<mapsto> sprint_export, ''map.xlsx'' \<mapsto> feature_map],
      writable = (\<lambda>path. path = ''out/report.csv''),
      reads = []\<rparr>"

text \<open>An export whose only row is a task, beside the same map workbook.\<close>

definition task_export :: file_content where
  "task_export =
     CsvFile [''Summary'', ''Issue key'', ''Issue Type'', ''Custom field (Feature Link)'', ''Sprint'']
       [[Str ''Fix build'', Str ''JL-2'', Str ''Task'', Str ''F-1'', Str ''PI23.2 Sprint 3'']]"

definition backlog :: world where
  "backlog =
     \<lparr>disk = [''export.csv'' \<mapsto> task_export, ''map.xlsx'' \<mapsto> feature_map],
      writable = (\<lambda>path. True),
      reads = []\<rparr>"

text \<open>An export whose first row is a task, in a world of its own.\<close>

definition task_first_export :: file_content where
  "task_first_export =
     CsvFile [''Summary'', ''Issue key'', ''Issue Type'', ''Custom field (Feature Link)'', ''Sprint'']
       [[Str ''Fix build'', Str ''JL-2'', Str ''Task'', Str ''F-1'', Str ''PI23.2 Sprint 3''],
        [Str ''Export'', Str ''JL-4'', Str ''Story'', Str ''F-3'', Str ''PI23.2 Sprint 3'']]"

definition planning :: world where
  "planning =
     \<lparr>disk = [''export.csv'' \<mapsto> task_first_export, ''map.xlsx'' \<mapsto> feature_map],
      writable = (\<lambda>path. True),
      reads = []\<rparr>"

text \<open>The sprint labels of the specification's example, as a list (labelled from 0).\<close>

definition sprint_labels :: series where
  "sprint_labels =
     [(0, Str ''PI23.1 Sprint 4''), (1, Str ''PI23.2 Sprint 1''), (2, Str ''PI23.2 Sprint 3'')]"

text \<open>
  Two more lists of labels: one whose first label has a longer text than the others, and
  the labels of the example in another order.
\<close>

definition kiwi_labels :: series where
  "kiwi_labels =
     [(0, Str ''Team Kiwi PI23.1 Sprint 5''), (1, Str ''PI23.2 Sprint 1''),
      (2, Str ''PI23.2 Sprint 3'')]"

definition shuffled_labels :: series where
  "shuffled_labels =
     [(0, Str ''PI23.2 Sprint 3''), (1, Str ''PI23.2 Sprint 1''), (2, Str ''PI23.1 Sprint 4'')]"

text \<open>
  The export of the world \<open>office\<close> with the task moved to the first row, and the world
  that holds it.
\<close>

definition review_body :: "cell list list" where
  "review_body =
     [[Str ''JL-2'', Str ''Fix build'', Str ''Task'', Str ''F-1'', Str ''PI23.2 Sprint 3'',
       Str ''Open''],
      [Str ''JL-1'', Str ''Login page'', Str ''Story'', Str ''F-1'', Str ''PI23.1 Sprint 4'',
       Str ''Done''],
      [Str ''JL-3'', Str ''Search'', Str ''Story'', Str ''F-2'', Str ''PI23.2 Sprint 1'',
       Str ''Done''],
      [Str ''JL-4'', Str ''Export'', Str ''Story'', Str ''F-3'', Str ''PI23.2 Sprint 3'',
       Str ''Open'']]"

definition review :: world where
  "review =
     \<lparr>disk = [''export.csv'' \<mapsto> CsvFile sprint_header review_body,
              ''map.xlsx'' \<mapsto> feature_map],
      writable = (\<lambda>path. True),
      reads = []\<rparr>"

text \<open>A table that lacks columns of either normalizer.\<close>

definition short_table :: file_content where
  "short_table = CsvFile [''Feature'', ''Sprint''] [[Str ''F-1'', Str ''PI23.2 Sprint 3'']]"

definition drafts :: world where
  "drafts =
     \<lparr>disk = [''table.csv'' \<mapsto> short_table],
      writable = (\<lambda>path. True),
      reads = []\<rparr>"

text \<open>
  The frames expected from the world \<open>office\<close>: the stories of the latest sprint, the two
  columns of the map, and their join with the new summaries.
\<close>

definition latest_stories :: dataframe where
  "latest_stories =
     \<lparr>columns = [''Summary'', ''Issue key'', ''Issue Type'', ''Feature'', ''Sprint''],
      rows = [(3, [Str ''Export'', Str ''JL-4'', Str ''Story'', Str ''F-3'', Str ''PI23.2 Sprint 3''])]\<rparr>"

definition feature_labels :: dataframe where
  "feature_labels =
     \<lparr>columns = [''Feature'', ''Label''],
      rows = [(0, [Str ''F-1'', Str ''Accounts'']), (1, [Str ''F-3'', Str ''Reports'']),
              (2, [Str ''F-4'', Str ''Billing''])]\<rparr>"

definition labelled_stories :: dataframe where
  "labelled_stories =
     \<lparr>columns = [''Summary'', ''Issue key'', ''Issue Type'', ''Feature'', ''Sprint'', ''Label''],
      rows = [(0, [Str ''JL-4 Export'', Str ''JL-4'', Str ''Story'', Str ''F-3'',
                   Str ''PI23.2 Sprint 3'', Str ''Reports''])]\<rparr>"

section \<open>The loader: extension first, then the read\<close>

lemma split_on_not_Nil: "split_on sep s \<noteq> []"
  by (induction s) (auto split: list.splits)

lemma split_on_no_sep: "sep \<notin> set s \<Longrightarrow> split_on sep s = [s]"
  by (induction s) auto

lemma split_on_sep: "sep \<in> set s \<Longrightarrow> \<exists>x y ys. split_on sep s = x # y # ys"
proof (induction s)
  case Nil
  then show ?case by simp
next
  case (Cons c cs)
  show ?case
  proof (cases "c = sep")
    case True
    obtain x xs where "split_on sep cs = x # xs"
      using split_on_not_Nil [of sep cs] by (cases "split_on sep cs") auto
    with True show ?thesis by simp
  next
    case False
    with Cons.prems have "sep \<in> set cs" by simp
    with Cons.IH obtain x' y ys where "split_on sep cs = x' # y # ys" by blast
    with False show ?thesis by simp
  qed
qed

lemma last_split_on:
  "last (split_on sep s) = rev (takeWhile (\<lambda>c. c \<noteq> sep) (rev s))"
proof (induction s)
  case Nil
  show ?case by simp
next
  case (Cons c cs)
  show ?case
  proof (cases "sep \<in> set cs")
    case True
    then have tw: "takeWhile (\<lambda>c. c \<noteq> sep) (rev cs @ [c]) = takeWhile (\<lambda>c. c \<noteq> sep) (rev cs)"
      by (simp add: takeWhile_append1)
    from True obtain x y ys where sp: "split_on sep cs = x # y # ys"
      using split_on_sep by blast
    show ?thesis
      using Cons.IH by (simp add: sp tw)
  next
    case False
    then have tw: "takeWhile (\<lambda>c. c \<noteq> sep) (rev cs @ [c]) = rev cs @ takeWhile (\<lambda>c. c \<noteq> sep) [c]"
      by (intro takeWhile_append2) auto
    have sp: "split_on sep cs = [cs]"
      using False by (rule split_on_no_sep)
    show ?thesis
      unfolding rev.simps tw by (simp add: sp)
  qed
qed

lemma file_extension_after_last_dot: "last (split_on CHR ''.'' file) = after_last_dot file"
  by (simp add: last_split_on after_last_dot_def)

lemma check_file_extension_cases:
  "check_file_extension file =
     (if after_last_dot file \<in> {''xls'', ''xlsx'', ''csv''} then Inr (after_last_dot file)
      else Inl (JLError unsupported_message))"
  by (simp add: check_file_extension_def file_extension_after_last_dot
      supported_file_types_def Let_def)

lemma load_data_cases:
  "load_data file w =
     (if after_last_dot file \<in> {''xls'', ''xlsx''} then
        (case fst (pd_read ReadExcel file w) of
           Inl FileNotFoundError \<Rightarrow> Inr (Inl (JLError ''File not found!''))
         | Inl e \<Rightarrow> Inl e
         | Inr raw_data \<Rightarrow> Inr (Inr raw_data),
         w\<lparr>reads := reads w @ [(ReadExcel, file)]\<rparr>)
      else if after_last_dot file = ''csv'' then
        (case fst (pd_read ReadCsv file w) of
           Inl FileNotFoundError \<Rightarrow> Inr (Inl (JLError ''File not found!''))
         | Inl e \<Rightarrow> Inl e
         | Inr raw_data \<Rightarrow> Inr (Inr raw_data),
         w\<lparr>reads := reads w @ [(ReadCsv, file)]\<rparr>)
      else (Inr (Inl (JLError unsupported_message)), w))"
  by (auto simp add: load_data_def check_file_extension_cases supported_methods_def pd_read_def
      split: sum.splits py_exception.splits option.splits)

text \<open>
  Claim C10. The extension check of the loader takes the part of the path after its last
  dot (the whole path when there is none) and looks it up in \<open>{xls, xlsx, csv}\<close>. When it
  is there, the check returns it and the loader attempts exactly one read of the path,
  with the Excel reader for \<open>xls\<close> and \<open>xlsx\<close> and the CSV reader for \<open>csv\<close>; a dotless
  path that is one of the three words is treated the same way. Otherwise the loader
  returns the unsupported-type error and leaves the world, and so the log of reads,
  untouched.
\<close>

theorem extension_check_dispatch:
  "last (split_on CHR ''.'' file) = after_last_dot file
   \<and> check_file_extension file =
       (if after_last_dot file \<in> {''xls'', ''xlsx'', ''csv''} then Inr (after_last_dot file)
        else Inl (JLError unsupported_message))
   \<and> load_data file w =
       (if after_last_dot file \<in> {''xls'', ''xlsx''} then
          (case fst (pd_read ReadExcel file w) of
             Inl FileNotFoundError \<Rightarrow> Inr (Inl (JLError ''File not found!''))
           | Inl e \<Rightarrow> Inl e
           | Inr raw_data \<Rightarrow> Inr (Inr raw_data),
           w\<lparr>reads := reads w @ [(ReadExcel, file)]\<rparr>)
        else if after_last_dot file = ''csv'' then
          (case fst (pd_read ReadCsv file w) of
             Inl FileNotFoundError \<Rightarrow> Inr (Inl (JLError ''File not found!''))
           | Inl e \<Rightarrow> Inl e
           | Inr raw_data \<Rightarrow> Inr (Inr raw_data),
           w\<lparr>reads := reads w @ [(ReadCsv, file)]\<rparr>)
        else (Inr (Inl (JLError unsupported_message)), w))"
  using file_extension_after_last_dot check_file_extension_cases load_data_cases by blast

theorem extension_check_dispatch_witness:
  "check_file_extension ''csv'' = Inr ''csv''
   \<and> load_data ''csv'' no_files
       = (Inr (Inl (JLError ''File not found!'')), no_files\<lparr>reads := [(ReadCsv, ''csv'')]\<rparr>)
   \<and> load_data ''old.report.xls'' no_files
       = (Inr (Inl (JLError ''File not found!'')),
          no_files\<lparr>reads := [(ReadExcel, ''old.report.xls'')]\<rparr>)
   \<and> check_file_extension ''export.csv.bak'' = Inl (JLError unsupported_message)
   \<and> load_data ''export.csv.bak'' no_files = (Inr (Inl (JLError unsupported_message)), no_files)"
  using extension_check_dispatch [of "''csv''" no_files]
    extension_check_dispatch [of "''old.report.xls''" no_files]
    extension_check_dispatch [of "''export.csv.bak''" no_files]
  by (simp add: after_last_dot_def pd_read_def no_files_def)

text \<open>
  Claim C2, as amended. For a path that names no file, the loader returns the error
  \<open>File not found!\<close> when the part after the last dot is \<open>xls\<close>, \<open>xlsx\<close> or \<open>csv\<close>; for
  any other extension the extension check comes first and the loader returns the
  unsupported-type error.
\<close>

theorem load_data_missing_file:
  assumes "disk w file = None"
  shows "fst (load_data file w) =
           Inr (Inl (JLError (if after_last_dot file \<in> {''xls'', ''xlsx'', ''csv''}
                              then ''File not found!'' else unsupported_message)))"
  using assms by (simp add: load_data_cases pd_read_def)

theorem load_data_missing_file_witness:
  "disk no_files ''sprints.xlsx'' = None
   \<and> fst (load_data ''sprints.xlsx'' no_files) = Inr (Inl (JLError ''File not found!''))"
proof -
  have h: "disk no_files ''sprints.xlsx'' = None"
    by (simp add: no_files_def)
  show ?thesis
    using h load_data_missing_file [OF h] by (simp add: after_last_dot_def)
qed

text \<open>
  Claim C2, as stated, fails: the path \<open>notes.txt\<close> names no file, and the loader
  answers with the unsupported-type error, not with \<open>File not found!\<close>.
\<close>

theorem load_data_missing_file_counterexample:
  "disk no_files ''notes.txt'' = None
   \<and> fst (load_data ''notes.txt'' no_files) = Inr (Inl (JLError unsupported_message))
   \<and> fst (load_data ''notes.txt'' no_files) \<noteq> Inr (Inl (JLError ''File not found!''))"
  by (simp add: load_data_cases after_last_dot_def no_files_def unsupported_message_def)

text \<open>
  Claim C9. When the loader returns an error, each of the two normalizers returns this
  very error and the world the loader left: nothing is selected, renamed or filtered.
\<close>

theorem normalizers_pass_error:
  assumes "load_data file w = (Inr (Inl error), w')"
  shows "normalize_jira_export_file file w = (Inr (Inl error), w')
         \<and> normalize_map_file file w = (Inr (Inl error), w')"
  using assms by (simp add: normalize_jira_export_file_def normalize_map_file_def)

theorem normalizers_pass_error_witness:
  "load_data ''notes.txt'' office = (Inr (Inl (JLError unsupported_message)), office)
   \<and> normalize_jira_export_file ''notes.txt'' office
       = (Inr (Inl (JLError unsupported_message)), office)
   \<and> normalize_map_file ''notes.txt'' office = (Inr (Inl (JLError unsupported_message)), office)"
proof -
  have h: "load_data ''notes.txt'' office = (Inr (Inl (JLError unsupported_message)), office)"
    by (simp add: load_data_cases after_last_dot_def)
  show ?thesis
    using h normalizers_pass_error [OF h] by simp
qed

section \<open>The replacements that reach \<^verbatim>\<open>re.sub\<close>\<close>

lemma re_search_pi_match:
  "re_search_pi s = Some m \<Longrightarrow> pi_at m \<and> length m = 4"
proof (induction s)
  case Nil
  then show ?case by simp
next
  case (Cons c cs)
  show ?case
  proof (cases "pi_at (c # cs)")
    case True
    then obtain b d e rest where cs: "cs = b # d # e # rest"
      by (cases cs rule: pi_at.cases) (auto elim: pi_at.elims)
    with True Cons.prems show ?thesis by auto
  next
    case False
    with Cons show ?thesis by simp
  qed
qed

lemma pi_at_no_backslash:
  assumes "pi_at m" and "length m = 4"
  shows "CHR 0x5C \<notin> set m"
proof -
  from assms(2) obtain a b c d where m: "m = [a, b, c, d]"
    by (auto simp add: eval_nat_numeral length_Suc_conv)
  with assms(1) show ?thesis
    by (auto simp add: digit_def)
qed

lemma pi_matches_no_backslash:
  "pi_matches vs = Inr ms \<Longrightarrow> m \<in> set ms \<Longrightarrow> CHR 0x5C \<notin> set m"
proof (induction vs arbitrary: ms rule: pi_matches.induct)
  case 1
  then show ?case by simp
next
  case (2 s vs)
  from "2.prems"(1) obtain m0 ms0 where s: "re_search_pi s = Some m0"
    and r: "pi_matches vs = Inr ms0" and ms: "ms = m0 # ms0"
    by (auto split: option.splits sum.splits)
  show ?case
  proof (cases "m = m0")
    case True
    with re_search_pi_match [OF s] show ?thesis
      using pi_at_no_backslash by blast
  next
    case False
    with "2.prems"(2) ms have "m \<in> set ms0" by simp
    with "2.IH" s r show ?thesis by blast
  qed
qed simp_all

lemma fold_max_in: "fold max xs (x :: string) \<in> set (x # xs)"
proof (induction xs arbitrary: x)
  case Nil
  show ?case by simp
next
  case (Cons y ys)
  from Cons.IH [of "max y x"] show ?case
    by (auto simp add: max_def split: if_splits)
qed

lemma py_max_in: "py_max ms = Inr p \<Longrightarrow> p \<in> set ms"
  using fold_max_in by (cases ms) auto

lemma current_pi_no_backslash:
  "determine_current_pi sprints = Inr p \<Longrightarrow> CHR 0x5C \<notin> set p"
  by (auto simp add: determine_current_pi_def split: sum.splits
      dest: py_max_in pi_matches_no_backslash)

lemma last_chars_one:
  "last_chars p vs = Inr ls \<Longrightarrow> l \<in> set ls \<Longrightarrow> length l = 1"
proof (induction p vs arbitrary: ls rule: last_chars.induct)
  case (1 p)
  then show ?case by simp
next
  case (2 p sprint vs)
  show ?case
  proof (cases "contains sprint p")
    case True
    with "2.prems"(1) obtain ls0 where ne: "sprint \<noteq> []"
      and r: "last_chars p vs = Inr ls0" and ls: "ls = [last sprint] # ls0"
      by (auto split: if_splits sum.splits)
    with "2.prems"(2) "2.IH"(1) [OF True ne r] show ?thesis by auto
  next
    case False
    with "2.prems" "2.IH"(2) show ?thesis by simp
  qed
qed simp_all

lemma latest_sprint_one_char:
  "determine_latest_sprint sprints p = Inr c \<Longrightarrow> length c = 1"
  by (auto simp add: determine_latest_sprint_def split: sum.splits
      dest: py_max_in last_chars_one)

section \<open>Column validation\<close>

lemma normalize_export_missing:
  "\<not> set export_columns \<subseteq> set (columns df)
   \<Longrightarrow> normalize_export df = Inr (Inl (JLError missing_columns_message))"
  by (simp add: normalize_export_def select_columns_def)

lemma normalize_map_missing:
  "\<not> set map_columns \<subseteq> set (columns df)
   \<Longrightarrow> normalize_map df = Inr (Inl (JLError missing_columns_message))"
  by (simp add: normalize_map_def select_columns_def)

text \<open>
  Claim C4. A loaded table that lacks one of the five columns \<open>Summary\<close>, \<open>Issue key\<close>,
  \<open>Issue Type\<close>, \<open>Custom field (Feature Link)\<close>, \<open>Sprint\<close> makes the export normalizer
  return the missing-columns error; a loaded table that lacks \<open>Feature\<close> or \<open>Label\<close>
  makes the map normalizer return the error with the same message. The result is the
  error alone, with the world the loader left: no row is filtered.
\<close>

theorem missing_columns_error:
  assumes "load_data file w = (Inr (Inr df), w')"
  shows "set export_columns
           = {''Summary'', ''Issue key'', ''Issue Type'', ''Custom field (Feature Link)'', ''Sprint''}
         \<and> set map_columns = {''Feature'', ''Label''}
         \<and> (\<not> set export_columns \<subseteq> set (columns df) \<longrightarrow>
              normalize_jira_export_file file w = (Inr (Inl (JLError missing_columns_message)), w'))
         \<and> (\<not> set map_columns \<subseteq> set (columns df) \<longrightarrow>
              normalize_map_file file w = (Inr (Inl (JLError missing_columns_message)), w'))"
  using assms
  by (simp add: normalize_jira_export_file_def normalize_map_file_def
      normalize_export_missing normalize_map_missing)
     (simp add: export_columns_def map_columns_def)

theorem missing_columns_error_witness:
  "load_data ''table.csv'' drafts
     = (Inr (Inr (frame_of [''Feature'', ''Sprint''] [[Str ''F-1'', Str ''PI23.2 Sprint 3'']])),
        drafts\<lparr>reads := [(ReadCsv, ''table.csv'')]\<rparr>)
   \<and> normalize_jira_export_file ''table.csv'' drafts
     = (Inr (Inl (JLError missing_columns_message)), drafts\<lparr>reads := [(ReadCsv, ''table.csv'')]\<rparr>)
   \<and> normalize_map_file ''table.csv'' drafts
     = (Inr (Inl (JLError missing_columns_message)), drafts\<lparr>reads := [(ReadCsv, ''table.csv'')]\<rparr>)"
proof -
  have h: "load_data ''table.csv'' drafts
           = (Inr (Inr (frame_of [''Feature'', ''Sprint''] [[Str ''F-1'', Str ''PI23.2 Sprint 3'']])),
              drafts\<lparr>reads := [(ReadCsv, ''table.csv'')]\<rparr>)"
    by (simp add: load_data_cases after_last_dot_def pd_read_def drafts_def short_table_def)
  show ?thesis
    using h missing_columns_error [OF h]
    by (simp add: frame_of_def export_columns_def map_columns_def)
qed

section \<open>The shape of the normalized and merged frames\<close>

lemma select_columns_Inr:
  "select_columns wanted df = Inr t \<Longrightarrow>
     set wanted \<subseteq> set (columns df) \<and> columns t = wanted
     \<and> rows t = map (\<lambda>(i, cells). (i, map (cell_of (columns df) cells) wanted)) (rows df)"
  by (auto simp add: select_columns_def split: if_splits)

lemma normalize_export_Inr:
  assumes "normalize_export df = Inr (Inr t)"
  shows "\<exists>selected query.
           select_columns export_columns df = Inr selected
           \<and> t = query_eq ''Sprint'' query
                   (query_eq ''Issue Type'' ''Story''
                      (rename_column ''Custom field (Feature Link)'' ''Feature'' selected))"
proof (cases "select_columns export_columns df")
  case (Inl e)
  with assms show ?thesis
    by (cases e) (simp_all add: normalize_export_def)
next
  case (Inr selected)
  with assms show ?thesis
    by (auto simp add: normalize_export_def Let_def split: sum.splits)
qed

lemma normalize_map_Inr:
  assumes "normalize_map df = Inr (Inr t)"
  shows "select_columns map_columns df = Inr t"
proof (cases "select_columns map_columns df")
  case (Inl e)
  with assms show ?thesis
    by (cases e) (simp_all add: normalize_map_def)
next
  case (Inr selected)
  with assms show ?thesis
    by (simp add: normalize_map_def)
qed

lemma normalize_export_columns:
  assumes "normalize_export df = Inr (Inr t)"
  shows "columns t = [''Summary'', ''Issue key'', ''Issue Type'', ''Feature'', ''Sprint'']"
proof -
  from normalize_export_Inr [OF assms] obtain selected query where
    s: "select_columns export_columns df = Inr selected" and
    t: "t = query_eq ''Sprint'' query
              (query_eq ''Issue Type'' ''Story''
                 (rename_column ''Custom field (Feature Link)'' ''Feature'' selected))"
    by blast
  from select_columns_Inr [OF s] have "columns selected = export_columns" by simp
  then show ?thesis
    by (simp add: t query_eq_def rename_column_def export_columns_def)
qed

lemma normalize_export_rows:
  assumes "normalize_export df = Inr (Inr t)" and "r \<in> set (rows t)"
  shows "length (snd r) = 5"
proof -
  from normalize_export_Inr [OF assms(1)] obtain selected query where
    s: "select_columns export_columns df = Inr selected" and
    t: "t = query_eq ''Sprint'' query
              (query_eq ''Issue Type'' ''Story''
                 (rename_column ''Custom field (Feature Link)'' ''Feature'' selected))"
    by blast
  from assms(2) have "r \<in> set (rows selected)"
    by (simp add: t query_eq_def rename_column_def)
  with select_columns_Inr [OF s] show ?thesis
    by (auto simp add: export_columns_def)
qed

lemma normalize_map_columns:
  "normalize_map df = Inr (Inr t) \<Longrightarrow> columns t = [''Feature'', ''Label'']"
  using select_columns_Inr [OF normalize_map_Inr] by (simp add: map_columns_def)

lemma normalize_map_rows:
  assumes "normalize_map df = Inr (Inr t)" and "r \<in> set (rows t)"
  shows "length (snd r) = 2"
  using select_columns_Inr [OF normalize_map_Inr [OF assms(1)]] assms(2)
  by (auto simp add: map_columns_def)

lemma merge_normalized_columns:
  assumes "merge_normalized (Inr jira) (Inr mapping) = Inr (Inr merged)"
    and "columns jira = [''Summary'', ''Issue key'', ''Issue Type'', ''Feature'', ''Sprint'']"
    and "columns mapping = [''Feature'', ''Label'']"
  shows "columns merged
           = [''Summary'', ''Issue key'', ''Issue Type'', ''Feature'', ''Sprint'', ''Label'']"
  using assms
  by (auto simp add: merge_normalized_def pd_merge_def assign_column_def select_columns_def
      split: sum.splits if_splits)

lemma merge_normalized_frame:
  "merge_normalized rj rm = Inr (Inr merged) \<Longrightarrow> \<exists>jira mapping. rj = Inr jira \<and> rm = Inr mapping"
  by (cases rj; cases rm) (simp_all add: merge_normalized_def)

lemma normalize_jira_export_file_frame:
  "normalize_jira_export_file file w = (Inr (Inr t), w')
   \<Longrightarrow> \<exists>df. normalize_export df = Inr (Inr t)"
  by (auto simp add: normalize_jira_export_file_def split: prod.splits sum.splits)

lemma normalize_map_file_frame:
  "normalize_map_file file w = (Inr (Inr t), w') \<Longrightarrow> \<exists>df. normalize_map df = Inr (Inr t)"
  by (auto simp add: normalize_map_file_def split: prod.splits sum.splits)

lemma merge_files_parts:
  assumes "merge_files file map_file w = (Inr (Inr merged), w')"
  shows "\<exists>jira mapping w1.
           normalize_jira_export_file file w = (Inr (Inr jira), w1)
           \<and> normalize_map_file map_file w1 = (Inr (Inr mapping), w')
           \<and> merge_normalized (Inr jira) (Inr mapping) = Inr (Inr merged)"
proof -
  obtain a w1 where a: "normalize_jira_export_file file w = (a, w1)"
    by (cases "normalize_jira_export_file file w")
  obtain b w2 where b: "normalize_map_file map_file w1 = (b, w2)"
    by (cases "normalize_map_file map_file w1")
  from assms a obtain rj where rj: "a = Inr rj"
    by (cases a) (simp_all add: merge_files_def)
  from assms a b rj obtain rm where rm: "b = Inr rm"
    by (cases b) (simp_all add: merge_files_def)
  from assms a b rj rm have m: "merge_normalized rj rm = Inr (Inr merged)" and w: "w2 = w'"
    by (simp_all add: merge_files_def)
  from merge_normalized_frame [OF m] obtain jira mapping where "rj = Inr jira" "rm = Inr mapping"
    by blast
  with a b rj rm m w show ?thesis by simp
qed

lemma merge_files_columns:
  assumes "merge_files file map_file w = (Inr (Inr merged), w')"
  shows "columns merged
           = [''Summary'', ''Issue key'', ''Issue Type'', ''Feature'', ''Sprint'', ''Label'']"
proof -
  from merge_files_parts [OF assms] obtain jira mapping w1 where
    j: "normalize_jira_export_file file w = (Inr (Inr jira), w1)" and
    m: "normalize_map_file map_file w1 = (Inr (Inr mapping), w')" and
    mn: "merge_normalized (Inr jira) (Inr mapping) = Inr (Inr merged)"
    by blast
  from normalize_jira_export_file_frame [OF j] normalize_export_columns
  have cj: "columns jira = [''Summary'', ''Issue key'', ''Issue Type'', ''Feature'', ''Sprint'']"
    by blast
  from normalize_map_file_frame [OF m] normalize_map_columns
  have cm: "columns mapping = [''Feature'', ''Label'']"
    by blast
  from merge_normalized_columns [OF mn cj cm] show ?thesis .
qed

lemma list5: "length xs = 5 \<Longrightarrow> \<exists>a b c d e. xs = [a, b, c, d, e]"
  by (auto simp add: eval_nat_numeral length_Suc_conv)

lemma list2: "length xs = 2 \<Longrightarrow> \<exists>a b. xs = [a, b]"
  by (auto simp add: eval_nat_numeral length_Suc_conv)

lemma snd_set_enumerate: "snd ` set (List.enumerate n xs) = set xs"
  by (metis map_snd_enumerate set_map)

lemma pd_merge_rows:
  assumes pm: "pd_merge jira mapping ''Feature'' = Inr joined"
    and cj: "columns jira = [''Summary'', ''Issue key'', ''Issue Type'', ''Feature'', ''Sprint'']"
    and cm: "columns mapping = [''Feature'', ''Label'']"
    and rj: "\<And>r. r \<in> set (rows jira) \<Longrightarrow> length (snd r) = 5"
    and rm: "\<And>r. r \<in> set (rows mapping) \<Longrightarrow> length (snd r) = 2"
  shows "columns joined
           = [''Summary'', ''Issue key'', ''Issue Type'', ''Feature'', ''Sprint'', ''Label'']"
    and "snd ` set (rows joined)
           = {[s, k, t, f, sp, lab] | s k t f sp lab.
                (\<exists>i. (i, [s, k, t, f, sp]) \<in> set (rows jira))
                \<and> (\<exists>j. (j, [f, lab]) \<in> set (rows mapping))}"
proof -
  let ?body = "concat (map (\<lambda>(i, l).
                  map (\<lambda>(j, r). l @ drop_column ''Feature'' (columns mapping) r)
                    (filter (\<lambda>(j, r). cell_of (columns mapping) r ''Feature'' = cell_of (columns jira) l ''Feature'')
                       (rows mapping)))
                  (rows jira))"
  let ?joined = "\<lparr>columns = columns jira @ filter (\<lambda>c. c \<noteq> ''Feature'') (columns mapping),
             rows = List.enumerate 0 ?body\<rparr>"
  have m: "joined = ?joined"
    using pm by (simp add: pd_merge_def cj cm split: if_splits)
  have c: "columns ?joined = [''Summary'', ''Issue key'', ''Issue Type'', ''Feature'', ''Sprint'', ''Label'']"
    by (simp add: cj cm)
  have s: "snd ` set (rows ?joined) = set ?body"
    by (simp only: dataframe.select_convs snd_set_enumerate)
  have b: "set ?body = {[s, k, t, f, sp, lab] | s k t f sp lab.
                    (\<exists>i. (i, [s, k, t, f, sp]) \<in> set (rows jira)) \<and> (\<exists>j. (j, [f, lab]) \<in> set (rows mapping))}"
    (is "?L = ?R")
  proof (intro set_eqI iffI)
    fix x assume "x \<in> ?L"
    then obtain i l j r where l: "(i, l) \<in> set (rows jira)" and r: "(j, r) \<in> set (rows mapping)"
      and k: "cell_of (columns mapping) r ''Feature'' = cell_of (columns jira) l ''Feature''"
      and x: "x = l @ drop_column ''Feature'' (columns mapping) r"
      by auto
    from rj [OF l] obtain a b c d e where l5: "l = [a, b, c, d, e]" using list5 by fastforce
    from rm [OF r] obtain f lab where r2: "r = [f, lab]" using list2 by fastforce
    from k have "f = d" by (simp add: cj cm l5 r2 cell_of_def)
    with l r x l5 r2 show "x \<in> ?R"
      by (auto simp add: cm drop_column_def)
  next
    fix x assume "x \<in> ?R"
    then obtain s k t f sp lab i j where x: "x = [s, k, t, f, sp, lab]"
      and l: "(i, [s, k, t, f, sp]) \<in> set (rows jira)" and r: "(j, [f, lab]) \<in> set (rows mapping)"
      by blast
    have "cell_of (columns mapping) [f, lab] ''Feature'' = cell_of (columns jira) [s, k, t, f, sp] ''Feature''"
      by (simp add: cj cm cell_of_def)
    moreover have "x = [s, k, t, f, sp] @ drop_column ''Feature'' (columns mapping) [f, lab]"
      by (simp add: x cm drop_column_def)
    ultimately show "x \<in> ?L"
      using l r by force
  qed
  from s b have e: "snd ` set (rows ?joined) = {[s, k, t, f, sp, lab] | s k t f sp lab.
                    (\<exists>i. (i, [s, k, t, f, sp]) \<in> set (rows jira)) \<and> (\<exists>j. (j, [f, lab]) \<in> set (rows mapping))}"
    by (rule trans)
  show "columns joined
           = [''Summary'', ''Issue key'', ''Issue Type'', ''Feature'', ''Sprint'', ''Label'']"
    unfolding m by (rule c)
  show "snd ` set (rows joined)
           = {[s, k, t, f, sp, lab] | s k t f sp lab.
                (\<exists>i. (i, [s, k, t, f, sp]) \<in> set (rows jira))
                \<and> (\<exists>j. (j, [f, lab]) \<in> set (rows mapping))}"
    unfolding m by (rule e)
qed

lemma apply_join_length: "apply_join sep rs = Inr ss \<Longrightarrow> length ss = length rs"
  by (induction rs arbitrary: ss) (auto split: sum.splits)

lemma apply_join_nth:
  "apply_join sep rs = Inr ss \<Longrightarrow> n < length rs \<Longrightarrow> py_join sep (snd (rs ! n)) = Inr (ss ! n)"
proof (induction rs arbitrary: ss n)
  case Nil
  then show ?case by simp
next
  case (Cons r rs)
  obtain i cells where r: "r = (i, cells)" by (cases r)
  from Cons.prems(1) r obtain s ss' where s: "py_join sep cells = Inr s"
    and ss': "apply_join sep rs = Inr ss'" and ss: "ss = s # ss'"
    by (auto split: sum.splits)
  show ?case
  proof (cases n)
    case 0
    with r s ss show ?thesis by simp
  next
    case (Suc m)
    with Cons.prems(2) have "m < length rs" by simp
    from Cons.IH [OF ss' this] Suc ss show ?thesis by simp
  qed
qed

lemma py_join_pair:
  "py_join sep [a, b] = Inr s \<Longrightarrow> \<exists>x y. a = Str x \<and> b = Str y \<and> s = x @ sep @ y"
  by (cases a; cases b) auto

lemma merged_rows_nth:
  assumes mn: "merge_normalized (Inr jira) (Inr mapping) = Inr (Inr merged)"
    and cj: "columns jira = [''Summary'', ''Issue key'', ''Issue Type'', ''Feature'', ''Sprint'']"
    and cm: "columns mapping = [''Feature'', ''Label'']"
    and rj: "\<And>r. r \<in> set (rows jira) \<Longrightarrow> length (snd r) = 5"
    and rm: "\<And>r. r \<in> set (rows mapping) \<Longrightarrow> length (snd r) = 2"
  shows "\<exists>joined. pd_merge jira mapping ''Feature'' = Inr joined
           \<and> length (rows merged) = length (rows joined)
           \<and> (\<forall>n < length (rows joined). \<exists>i s k t f sp lab.
                 rows joined ! n = (i, [Str s, Str k, t, f, sp, lab])
                 \<and> rows merged ! n = (i, [Str (k @ '' '' @ s), Str k, t, f, sp, lab]))"
proof -
  let ?C = "[''Summary'', ''Issue key'', ''Issue Type'', ''Feature'', ''Sprint'', ''Label'']"
  from mn obtain joined where j: "pd_merge jira mapping ''Feature'' = Inr joined"
    by (cases "pd_merge jira mapping ''Feature''") (simp_all add: merge_normalized_def)
  note c = pd_merge_rows(1) [OF j cj cm rj rm]
  note shape = pd_merge_rows(2) [OF j cj cm rj rm]
  let ?pair = "map (\<lambda>(i, cells). (i, map (cell_of ?C cells) [''Issue key'', ''Summary''])) (rows joined)"
  have sel: "select_columns [''Issue key'', ''Summary''] joined
               = Inr \<lparr>columns = [''Issue key'', ''Summary''], rows = ?pair\<rparr>"
    by (simp add: select_columns_def c)
  from mn obtain summaries where
    dj: "df_apply_join '' '' \<lparr>columns = [''Issue key'', ''Summary''], rows = ?pair\<rparr>
           = Inr summaries" and
    merged: "merged = assign_column ''Summary'' summaries joined"
    unfolding merge_normalized_def prod.case sum.case j sel
    by (cases "df_apply_join '' '' \<lparr>columns = [''Issue key'', ''Summary''], rows = ?pair\<rparr>")
       auto
  from dj have aj: "apply_join '' '' ?pair = Inr summaries"
    by (simp add: df_apply_join_def split: if_splits)
  from apply_join_length [OF aj] have len: "length summaries = length (rows joined)"
    by simp
  have rows_merged: "rows merged
      = map (\<lambda>((i, cells), v). (i, set_cell ?C ''Summary'' (Str v) cells)) (zip (rows joined) summaries)"
    by (simp add: merged assign_column_def c)
  have "\<exists>i s k t f sp lab.
          rows joined ! n = (i, [Str s, Str k, t, f, sp, lab])
          \<and> rows merged ! n = (i, [Str (k @ '' '' @ s), Str k, t, f, sp, lab])"
    if n: "n < length (rows joined)" for n
  proof -
    obtain i cells where r: "rows joined ! n = (i, cells)"
      by (cases "rows joined ! n")
    from n r have "cells \<in> snd ` set (rows joined)"
      by (metis nth_mem snd_conv image_eqI)
    with shape obtain s0 k0 t f sp lab where cells: "cells = [s0, k0, t, f, sp, lab]"
      by auto
    from n r cells have "snd (?pair ! n) = [k0, s0]"
      by (simp add: cell_of_def)
    moreover from apply_join_nth [OF aj] n have "py_join '' '' (snd (?pair ! n)) = Inr (summaries ! n)"
      by simp
    ultimately have "py_join '' '' [k0, s0] = Inr (summaries ! n)"
      by simp
    from py_join_pair [OF this] obtain k s where k: "k0 = Str k" and s: "s0 = Str s"
      and v: "summaries ! n = k @ '' '' @ s"
      by blast
    from n len r cells k s v
    have "rows merged ! n = (i, [Str (k @ '' '' @ s), Str k, t, f, sp, lab])"
      by (simp add: rows_merged set_cell_def)
    with r cells k s show ?thesis by blast
  qed
  moreover have "length (rows merged) = length (rows joined)"
    by (simp add: rows_merged len)
  ultimately show ?thesis using j by blast
qed

section \<open>The example world, evaluated\<close>

lemma normalize_sprint_export:
  "disk w ''export.csv'' = Some sprint_export \<Longrightarrow>
   normalize_jira_export_file ''export.csv'' w
     = (Inr (Inr latest_stories), w\<lparr>reads := reads w @ [(ReadCsv, ''export.csv'')]\<rparr>)"
  by (simp add: normalize_jira_export_file_def load_data_cases after_last_dot_def pd_read_def
     sprint_export_def sprint_header_def sprint_body_def frame_of_def normalize_export_def select_columns_def
     export_columns_def rename_column_def query_eq_def loc_column_def cell_of_def
     determine_current_pi_def determine_latest_sprint_def compose_query_def re_sub_pi_def
     re_sub_sprint_def re_template_def digit_def Let_def latest_stories_def)

lemma normalize_feature_map:
  "disk w ''map.xlsx'' = Some feature_map \<Longrightarrow>
   normalize_map_file ''map.xlsx'' w
     = (Inr (Inr feature_labels), w\<lparr>reads := reads w @ [(ReadExcel, ''map.xlsx'')]\<rparr>)"
  by (simp add: normalize_map_file_def load_data_cases after_last_dot_def pd_read_def
     feature_map_def frame_of_def normalize_map_def select_columns_def
     map_columns_def cell_of_def feature_labels_def)

lemma merge_latest_stories:
  "merge_normalized (Inr latest_stories) (Inr feature_labels) = Inr (Inr labelled_stories)"
  by (simp add: merge_normalized_def pd_merge_def key_cells_def merge_refused_def
      df_apply_join_def latest_stories_def feature_labels_def labelled_stories_def
      select_columns_def cell_of_def drop_column_def assign_column_def set_cell_def)

lemma merge_files_office:
  "merge_files ''export.csv'' ''map.xlsx'' office
     = (Inr (Inr labelled_stories),
        office\<lparr>reads := [(ReadCsv, ''export.csv''), (ReadExcel, ''map.xlsx'')]\<rparr>)"
proof -
  have a: "normalize_jira_export_file ''export.csv'' office
     = (Inr (Inr latest_stories), office\<lparr>reads := [(ReadCsv, ''export.csv'')]\<rparr>)"
    using normalize_sprint_export [of office] by (simp add: office_def)
  have b: "normalize_map_file ''map.xlsx'' (office\<lparr>reads := [(ReadCsv, ''export.csv'')]\<rparr>)
     = (Inr (Inr feature_labels),
        office\<lparr>reads := [(ReadCsv, ''export.csv''), (ReadExcel, ''map.xlsx'')]\<rparr>)"
    using normalize_feature_map [of "office\<lparr>reads := [(ReadCsv, ''export.csv'')]\<rparr>"]
    by (simp add: office_def)
  show ?thesis
    by (simp add: merge_files_def a b merge_latest_stories)
qed

section \<open>Inner join and the new summaries\<close>

lemma feature_values_iff:
  "x \<in> feature_values df \<longleftrightarrow> (\<exists>r \<in> set (rows df). x = cell_of (columns df) (snd r) ''Feature'')"
  by (force simp add: feature_values_def loc_column_def)

lemma merge_files_normalized:
  assumes "normalize_jira_export_file file w = (Inr (Inr jira), w1)"
    and "normalize_map_file map_file w1 = (Inr (Inr mapping), w2)"
    and "merge_files file map_file w = (Inr (Inr merged), w3)"
  shows "merge_normalized (Inr jira) (Inr mapping) = Inr (Inr merged)"
  using assms by (simp add: merge_files_def)

lemma normalized_shapes:
  assumes "normalize_jira_export_file file w = (Inr (Inr jira), w1)"
    and "normalize_map_file map_file w1 = (Inr (Inr mapping), w2)"
  shows "columns jira = [''Summary'', ''Issue key'', ''Issue Type'', ''Feature'', ''Sprint'']"
    and "columns mapping = [''Feature'', ''Label'']"
    and "\<And>r. r \<in> set (rows jira) \<Longrightarrow> length (snd r) = 5"
    and "\<And>r. r \<in> set (rows mapping) \<Longrightarrow> length (snd r) = 2"
proof -
  from normalize_jira_export_file_frame [OF assms(1)] obtain df where
    df: "normalize_export df = Inr (Inr jira)" by blast
  from normalize_map_file_frame [OF assms(2)] obtain dm where
    dm: "normalize_map dm = Inr (Inr mapping)" by blast
  show "columns jira = [''Summary'', ''Issue key'', ''Issue Type'', ''Feature'', ''Sprint'']"
    by (rule normalize_export_columns [OF df])
  show "columns mapping = [''Feature'', ''Label'']"
    by (rule normalize_map_columns [OF dm])
  show "\<And>r. r \<in> set (rows jira) \<Longrightarrow> length (snd r) = 5"
    by (rule normalize_export_rows [OF df])
  show "\<And>r. r \<in> set (rows mapping) \<Longrightarrow> length (snd r) = 2"
    by (rule normalize_map_rows [OF dm])
qed

text \<open>
  Claim C5. The merge is an inner join on the column \<open>Feature\<close>: the \<open>Feature\<close> values of
  the merged table are exactly those present in both normalized tables, so a value
  present in only one of them labels no row of the output.
\<close>

theorem merge_is_inner_join:
  assumes nj: "normalize_jira_export_file file w = (Inr (Inr jira), w1)"
    and nm: "normalize_map_file map_file w1 = (Inr (Inr mapping), w2)"
    and mf: "merge_files file map_file w = (Inr (Inr merged), w3)"
  shows "feature_values merged = feature_values jira \<inter> feature_values mapping
         \<and> ((v \<in> feature_values jira \<and> v \<notin> feature_values mapping
              \<or> v \<notin> feature_values jira \<and> v \<in> feature_values mapping)
             \<longrightarrow> v \<notin> feature_values merged)"
proof -
  let ?J = "[''Summary'', ''Issue key'', ''Issue Type'', ''Feature'', ''Sprint'']"
  let ?M = "[''Feature'', ''Label'']"
  let ?C = "[''Summary'', ''Issue key'', ''Issue Type'', ''Feature'', ''Sprint'', ''Label'']"
  note sh = normalized_shapes [OF nj nm]
  have mn: "merge_normalized (Inr jira) (Inr mapping) = Inr (Inr merged)"
    by (rule merge_files_normalized [OF nj nm mf])
  have cmg: "columns merged = ?C"
    by (rule merge_normalized_columns [OF mn sh(1) sh(2)])
  from merged_rows_nth [OF mn sh] obtain joined where
    j: "pd_merge jira mapping ''Feature'' = Inr joined" and
    len: "length (rows merged) = length (rows joined)" and
    nth: "\<And>n. n < length (rows joined) \<Longrightarrow> \<exists>i s k t f sp lab.
                 rows joined ! n = (i, [Str s, Str k, t, f, sp, lab])
                 \<and> rows merged ! n = (i, [Str (k @ '' '' @ s), Str k, t, f, sp, lab])"
    by auto
  note shape = pd_merge_rows(2) [OF j sh]
  have sub: "x \<in> feature_values jira \<inter> feature_values mapping" if "x \<in> feature_values merged" for x
  proof -
    from that obtain r where r: "r \<in> set (rows merged)"
      and x: "x = cell_of ?C (snd r) ''Feature''"
      unfolding feature_values_iff cmg by blast
    from r obtain n where n: "n < length (rows merged)" and rn: "r = rows merged ! n"
      by (metis in_set_conv_nth)
    from n len nth [of n] obtain i s k t f sp lab where
      jn: "rows joined ! n = (i, [Str s, Str k, t, f, sp, lab])" and
      mn: "rows merged ! n = (i, [Str (k @ '' '' @ s), Str k, t, f, sp, lab])"
      by auto
    from x rn mn have xf: "x = f" by (simp add: cell_of_def)
    from n len jn have "[Str s, Str k, t, f, sp, lab] \<in> snd ` set (rows joined)"
      by (metis nth_mem snd_conv image_eqI)
    with shape obtain i' j' where l: "(i', [Str s, Str k, t, f, sp]) \<in> set (rows jira)"
      and m: "(j', [f, lab]) \<in> set (rows mapping)"
      by auto
    have "cell_of ?J (snd (i', [Str s, Str k, t, f, sp])) ''Feature'' = f"
      by (simp add: cell_of_def)
    with l have a: "f \<in> feature_values jira"
      unfolding feature_values_iff sh(1) by (intro bexI [of _ "(i', [Str s, Str k, t, f, sp])"]) simp_all
    have "cell_of ?M (snd (j', [f, lab])) ''Feature'' = f"
      by (simp add: cell_of_def)
    with m have b: "f \<in> feature_values mapping"
      unfolding feature_values_iff sh(2) by (intro bexI [of _ "(j', [f, lab])"]) simp_all
    from a b xf show ?thesis by simp
  qed
  have sup: "x \<in> feature_values merged" if "x \<in> feature_values jira \<inter> feature_values mapping" for x
  proof -
    from that have "\<exists>l \<in> set (rows jira). x = cell_of (columns jira) (snd l) ''Feature''"
      by (simp add: feature_values_iff)
    then obtain l where l: "l \<in> set (rows jira)" and xl: "x = cell_of ?J (snd l) ''Feature''"
      unfolding sh(1) by blast
    from that have "\<exists>m \<in> set (rows mapping). x = cell_of (columns mapping) (snd m) ''Feature''"
      by (simp add: feature_values_iff)
    then obtain m where m: "m \<in> set (rows mapping)" and xm: "x = cell_of ?M (snd m) ''Feature''"
      unfolding sh(2) by blast
    from sh(3) [OF l] obtain s k t f sp where l5: "snd l = [s, k, t, f, sp]"
      using list5 by blast
    from sh(4) [OF m] obtain f' lab where m2: "snd m = [f', lab]"
      using list2 by blast
    from xl l5 have f: "f = x" by (simp add: cell_of_def)
    from xm m2 have f': "f' = x" by (simp add: cell_of_def)
    from l l5 f have l': "(fst l, [s, k, t, x, sp]) \<in> set (rows jira)"
      by (metis prod.collapse)
    from m m2 f' have m': "(fst m, [x, lab]) \<in> set (rows mapping)"
      by (metis prod.collapse)
    from l' m' have "[s, k, t, x, sp, lab]
        \<in> {[s, k, t, f, sp, lab] | s k t f sp lab.
             (\<exists>i. (i, [s, k, t, f, sp]) \<in> set (rows jira))
             \<and> (\<exists>j. (j, [f, lab]) \<in> set (rows mapping))}"
      by blast
    with shape have "[s, k, t, x, sp, lab] \<in> snd ` set (rows joined)"
      by (rule ssubst)
    then obtain r where r: "r \<in> set (rows joined)" and sr: "snd r = [s, k, t, x, sp, lab]"
      by force
    from r obtain n where n: "n < length (rows joined)" and rn: "rows joined ! n = r"
      by (metis in_set_conv_nth)
    from nth [OF n] rn sr obtain i s' k' where
      mn: "rows merged ! n = (i, [Str (k' @ '' '' @ s'), Str k', t, x, sp, lab])"
      by auto
    from n len have "rows merged ! n \<in> set (rows merged)" by simp
    moreover from mn have "x = cell_of ?C (snd (rows merged ! n)) ''Feature''"
      by (simp add: cell_of_def)
    ultimately show ?thesis
      unfolding feature_values_iff cmg by blast
  qed
  from sub sup have eq: "feature_values merged = feature_values jira \<inter> feature_values mapping"
    by blast
  then show ?thesis by blast
qed

lemma normalize_export_office:
  "normalize_jira_export_file ''export.csv'' office
     = (Inr (Inr latest_stories), office\<lparr>reads := [(ReadCsv, ''export.csv'')]\<rparr>)"
  using normalize_sprint_export [of office] by (simp add: office_def)

lemma normalize_map_office:
  "normalize_map_file ''map.xlsx'' (office\<lparr>reads := [(ReadCsv, ''export.csv'')]\<rparr>)
     = (Inr (Inr feature_labels),
        office\<lparr>reads := [(ReadCsv, ''export.csv''), (ReadExcel, ''map.xlsx'')]\<rparr>)"
  using normalize_feature_map [of "office\<lparr>reads := [(ReadCsv, ''export.csv'')]\<rparr>"]
  by (simp add: office_def)

theorem merge_is_inner_join_witness:
  "normalize_jira_export_file ''export.csv'' office
     = (Inr (Inr latest_stories), office\<lparr>reads := [(ReadCsv, ''export.csv'')]\<rparr>)
   \<and> normalize_map_file ''map.xlsx'' (office\<lparr>reads := [(ReadCsv, ''export.csv'')]\<rparr>)
     = (Inr (Inr feature_labels),
        office\<lparr>reads := [(ReadCsv, ''export.csv''), (ReadExcel, ''map.xlsx'')]\<rparr>)
   \<and> merge_files ''export.csv'' ''map.xlsx'' office
     = (Inr (Inr labelled_stories),
        office\<lparr>reads := [(ReadCsv, ''export.csv''), (ReadExcel, ''map.xlsx'')]\<rparr>)
   \<and> feature_values labelled_stories = feature_values latest_stories \<inter> feature_values feature_labels
   \<and> Str ''F-4'' \<in> feature_values feature_labels
   \<and> Str ''F-4'' \<notin> feature_values latest_stories
   \<and> Str ''F-4'' \<notin> feature_values labelled_stories"
  using merge_is_inner_join [OF normalize_export_office normalize_map_office merge_files_office,
      of "Str ''F-4''"]
    normalize_export_office normalize_map_office merge_files_office
  by (simp add: feature_values_def loc_column_def cell_of_def latest_stories_def
      feature_labels_def)

text \<open>
  Claim C6. In every row of the merged table the \<open>Summary\<close> is the \<open>Issue key\<close> of the
  row, one space, and the \<open>Summary\<close> the row had in the join, in this order.
\<close>

theorem summary_concatenation:
  assumes nj: "normalize_jira_export_file file w = (Inr (Inr jira), w1)"
    and nm: "normalize_map_file map_file w1 = (Inr (Inr mapping), w2)"
    and mf: "merge_files file map_file w = (Inr (Inr merged), w3)"
  shows "\<exists>joined. pd_merge jira mapping ''Feature'' = Inr joined
           \<and> length (rows merged) = length (rows joined)
           \<and> (\<forall>n < length (rows joined). \<exists>key summary.
                 cell_of (columns joined) (snd (rows joined ! n)) ''Issue key'' = Str key
                 \<and> cell_of (columns joined) (snd (rows joined ! n)) ''Summary'' = Str summary
                 \<and> cell_of (columns merged) (snd (rows merged ! n)) ''Issue key'' = Str key
                 \<and> cell_of (columns merged) (snd (rows merged ! n)) ''Summary''
                     = Str (key @ '' '' @ summary))"
proof -
  let ?C = "[''Summary'', ''Issue key'', ''Issue Type'', ''Feature'', ''Sprint'', ''Label'']"
  note sh = normalized_shapes [OF nj nm]
  have mn: "merge_normalized (Inr jira) (Inr mapping) = Inr (Inr merged)"
    by (rule merge_files_normalized [OF nj nm mf])
  have cmg: "columns merged = ?C"
    by (rule merge_normalized_columns [OF mn sh(1) sh(2)])
  from merged_rows_nth [OF mn sh] obtain joined where
    j: "pd_merge jira mapping ''Feature'' = Inr joined" and
    len: "length (rows merged) = length (rows joined)" and
    nth: "\<And>n. n < length (rows joined) \<Longrightarrow> \<exists>i s k t f sp lab.
                 rows joined ! n = (i, [Str s, Str k, t, f, sp, lab])
                 \<and> rows merged ! n = (i, [Str (k @ '' '' @ s), Str k, t, f, sp, lab])"
    by auto
  have cj: "columns joined = ?C"
    using j sh(1) sh(2) by (auto simp add: pd_merge_def split: if_splits)
  have "\<exists>key summary.
          cell_of (columns joined) (snd (rows joined ! n)) ''Issue key'' = Str key
          \<and> cell_of (columns joined) (snd (rows joined ! n)) ''Summary'' = Str summary
          \<and> cell_of (columns merged) (snd (rows merged ! n)) ''Issue key'' = Str key
          \<and> cell_of (columns merged) (snd (rows merged ! n)) ''Summary''
              = Str (key @ '' '' @ summary)"
    if "n < length (rows joined)" for n
  proof -
    from nth [OF that] obtain i s k t f sp lab where
      a: "rows joined ! n = (i, [Str s, Str k, t, f, sp, lab])" and
      b: "rows merged ! n = (i, [Str (k @ '' '' @ s), Str k, t, f, sp, lab])"
      by blast
    show ?thesis
      unfolding a b cj cmg by (simp add: cell_of_def)
  qed
  with j len show ?thesis by blast
qed

theorem summary_concatenation_witness:
  "normalize_jira_export_file ''export.csv'' office
     = (Inr (Inr latest_stories), office\<lparr>reads := [(ReadCsv, ''export.csv'')]\<rparr>)
   \<and> normalize_map_file ''map.xlsx'' (office\<lparr>reads := [(ReadCsv, ''export.csv'')]\<rparr>)
     = (Inr (Inr feature_labels),
        office\<lparr>reads := [(ReadCsv, ''export.csv''), (ReadExcel, ''map.xlsx'')]\<rparr>)
   \<and> merge_files ''export.csv'' ''map.xlsx'' office
     = (Inr (Inr labelled_stories),
        office\<lparr>reads := [(ReadCsv, ''export.csv''), (ReadExcel, ''map.xlsx'')]\<rparr>)
   \<and> (\<exists>joined. pd_merge latest_stories feature_labels ''Feature'' = Inr joined
         \<and> cell_of (columns joined) (snd (rows joined ! 0)) ''Issue key'' = Str ''JL-4''
         \<and> cell_of (columns joined) (snd (rows joined ! 0)) ''Summary'' = Str ''Export''
         \<and> cell_of (columns labelled_stories) (snd (rows labelled_stories ! 0)) ''Summary''
             = Str ''JL-4 Export'')"
  using summary_concatenation [OF normalize_export_office normalize_map_office merge_files_office]
    normalize_export_office normalize_map_office merge_files_office
  by (simp add: pd_merge_def key_cells_def merge_refused_def latest_stories_def
      feature_labels_def labelled_stories_def cell_of_def drop_column_def)

section \<open>Errors of the two inputs\<close>

lemma load_data_missing:
  assumes "disk w file = None" and "after_last_dot file \<in> {''xls'', ''xlsx'', ''csv''}"
  shows "\<exists>r. load_data file w
              = (Inr (Inl (JLError ''File not found!'')), w\<lparr>reads := reads w @ [(r, file)]\<rparr>)"
  using assms by (auto simp add: load_data_cases pd_read_def)

lemma normalize_missing:
  assumes "disk w file = None" and "after_last_dot file \<in> {''xls'', ''xlsx'', ''csv''}"
  shows "\<exists>r. normalize_jira_export_file file w
              = (Inr (Inl (JLError ''File not found!'')), w\<lparr>reads := reads w @ [(r, file)]\<rparr>)
            \<and> normalize_map_file file w
              = (Inr (Inl (JLError ''File not found!'')), w\<lparr>reads := reads w @ [(r, file)]\<rparr>)"
proof -
  from load_data_missing [OF assms] obtain r where
    "load_data file w
       = (Inr (Inl (JLError ''File not found!'')), w\<lparr>reads := reads w @ [(r, file)]\<rparr>)"
    by blast
  then show ?thesis
    by (intro exI [of _ r]) (simp add: normalize_jira_export_file_def normalize_map_file_def)
qed

text \<open>
  Claim C7. When both normalizations return errors, \<^verbatim>\<open>_merge_files\<close> returns one error
  whose message is the export's message followed by \<open>(from Jira extraction file) and\<close>,
  a newline, the map's message and \<open> (from map file)\<close>. When only one normalization
  returns an error, the result is its message followed by its source. When both paths
  have a supported extension and name no file, \<^verbatim>\<open>generate_csv\<close> returns the text that
  names both \<open>File not found!\<close> failures with their sources.
\<close>

theorem merge_files_errors:
  "(normalize_jira_export_file file w = (Inr (Inl e1), w1)
      \<and> normalize_map_file map_file w1 = (Inr (Inl e2), w2) \<longrightarrow>
    merge_files file map_file w
      = (Inr (Inl (JLError (message e1 @ ''(from Jira extraction file) and'' @ [CHR 0x0A]
                             @ message e2 @ '' (from map file)''))), w2))
   \<and> (normalize_jira_export_file file w = (Inr (Inl e1), w1)
        \<and> normalize_map_file map_file w1 = (Inr (Inr t), w2) \<longrightarrow>
      merge_files file map_file w
        = (Inr (Inl (JLError (message e1 @ '' (from Jira extraction file)''))), w2))
   \<and> (normalize_jira_export_file file w = (Inr (Inr t), w1)
        \<and> normalize_map_file map_file w1 = (Inr (Inl e2), w2) \<longrightarrow>
      merge_files file map_file w
        = (Inr (Inl (JLError (message e2 @ '' (from map file)''))), w2))
   \<and> (disk w file = None \<and> disk w map_file = None
        \<and> after_last_dot file \<in> {''xls'', ''xlsx'', ''csv''}
        \<and> after_last_dot map_file \<in> {''xls'', ''xlsx'', ''csv''} \<longrightarrow>
      fst (generate_csv file map_file export_file_name w)
        = Inr (''File not found!(from Jira extraction file) and'' @ [CHR 0x0A]
               @ ''File not found! (from map file)''))"
proof (intro conjI impI)
  assume "normalize_jira_export_file file w = (Inr (Inl e1), w1)
      \<and> normalize_map_file map_file w1 = (Inr (Inl e2), w2)"
  then show "merge_files file map_file w
      = (Inr (Inl (JLError (message e1 @ ''(from Jira extraction file) and'' @ [CHR 0x0A]
                             @ message e2 @ '' (from map file)''))), w2)"
    by (simp add: merge_files_def merge_normalized_def)
next
  assume "normalize_jira_export_file file w = (Inr (Inl e1), w1)
        \<and> normalize_map_file map_file w1 = (Inr (Inr t), w2)"
  then show "merge_files file map_file w
        = (Inr (Inl (JLError (message e1 @ '' (from Jira extraction file)''))), w2)"
    by (simp add: merge_files_def merge_normalized_def)
next
  assume "normalize_jira_export_file file w = (Inr (Inr t), w1)
        \<and> normalize_map_file map_file w1 = (Inr (Inl e2), w2)"
  then show "merge_files file map_file w
        = (Inr (Inl (JLError (message e2 @ '' (from map file)''))), w2)"
    by (simp add: merge_files_def merge_normalized_def)
next
  assume a: "disk w file = None \<and> disk w map_file = None
        \<and> after_last_dot file \<in> {''xls'', ''xlsx'', ''csv''}
        \<and> after_last_dot map_file \<in> {''xls'', ''xlsx'', ''csv''}"
  then obtain r1 where
    j: "normalize_jira_export_file file w
          = (Inr (Inl (JLError ''File not found!'')), w\<lparr>reads := reads w @ [(r1, file)]\<rparr>)"
    using normalize_missing [of w "file"] by blast
  from a have "disk (w\<lparr>reads := reads w @ [(r1, file)]\<rparr>) map_file = None"
    by simp
  with a obtain r2 where
    m: "normalize_map_file map_file (w\<lparr>reads := reads w @ [(r1, file)]\<rparr>)
          = (Inr (Inl (JLError ''File not found!'')),
             w\<lparr>reads := reads w @ [(r1, file)]\<rparr>
              \<lparr>reads := reads (w\<lparr>reads := reads w @ [(r1, file)]\<rparr>) @ [(r2, map_file)]\<rparr>)"
    using normalize_missing [of "w\<lparr>reads := reads w @ [(r1, file)]\<rparr>" map_file] by blast
  show "fst (generate_csv file map_file export_file_name w)
        = Inr (''File not found!(from Jira extraction file) and'' @ [CHR 0x0A]
               @ ''File not found! (from map file)'')"
    by (simp add: generate_csv_def merge_files_def j m merge_normalized_def)
qed

lemma normalize_gone_office:
  "normalize_jira_export_file ''gone.csv'' office
     = (Inr (Inl (JLError ''File not found!'')), office\<lparr>reads := [(ReadCsv, ''gone.csv'')]\<rparr>)"
  by (simp add: normalize_jira_export_file_def load_data_cases after_last_dot_def pd_read_def
      office_def)

lemma normalize_map_after_gone:
  "normalize_map_file ''map.xlsx'' (office\<lparr>reads := [(ReadCsv, ''gone.csv'')]\<rparr>)
     = (Inr (Inr feature_labels),
        office\<lparr>reads := [(ReadCsv, ''gone.csv''), (ReadExcel, ''map.xlsx'')]\<rparr>)"
  using normalize_feature_map [of "office\<lparr>reads := [(ReadCsv, ''gone.csv'')]\<rparr>"]
  by (simp add: office_def)

lemma normalize_gone_map_office:
  "normalize_map_file ''gone.xlsx'' (office\<lparr>reads := [(ReadCsv, ''export.csv'')]\<rparr>)
     = (Inr (Inl (JLError ''File not found!'')),
        office\<lparr>reads := [(ReadCsv, ''export.csv''), (ReadExcel, ''gone.xlsx'')]\<rparr>)"
  by (simp add: normalize_map_file_def load_data_cases after_last_dot_def pd_read_def
      office_def)

theorem merge_files_errors_witness:
  "merge_files ''gone.csv'' ''map.xlsx'' office
     = (Inr (Inl (JLError ''File not found! (from Jira extraction file)'')),
        office\<lparr>reads := [(ReadCsv, ''gone.csv''), (ReadExcel, ''map.xlsx'')]\<rparr>)
   \<and> merge_files ''export.csv'' ''gone.xlsx'' office
     = (Inr (Inl (JLError ''File not found! (from map file)'')),
        office\<lparr>reads := [(ReadCsv, ''export.csv''), (ReadExcel, ''gone.xlsx'')]\<rparr>)
   \<and> merge_files ''gone.csv'' ''gone.xlsx'' office
     = (Inr (Inl (JLError (''File not found!(from Jira extraction file) and'' @ [CHR 0x0A]
                            @ ''File not found! (from map file)''))),
        office\<lparr>reads := [(ReadCsv, ''gone.csv''), (ReadExcel, ''gone.xlsx'')]\<rparr>)
   \<and> disk no_files ''export.csv'' = None \<and> disk no_files ''map.xlsx'' = None
   \<and> fst (generate_csv ''export.csv'' ''map.xlsx'' ''out/report'' no_files)
       = Inr (''File not found!(from Jira extraction file) and'' @ [CHR 0x0A]
              @ ''File not found! (from map file)'')"
proof -
  have g: "normalize_map_file ''gone.xlsx'' (office\<lparr>reads := [(ReadCsv, ''gone.csv'')]\<rparr>)
     = (Inr (Inl (JLError ''File not found!'')),
        office\<lparr>reads := [(ReadCsv, ''gone.csv''), (ReadExcel, ''gone.xlsx'')]\<rparr>)"
    by (simp add: normalize_map_file_def load_data_cases after_last_dot_def pd_read_def
        office_def)
  have n: "disk no_files ''export.csv'' = None \<and> disk no_files ''map.xlsx'' = None"
    by (simp add: no_files_def)
  show ?thesis
    using merge_files_errors [of "''gone.csv''" office "JLError ''File not found!''"
        "office\<lparr>reads := [(ReadCsv, ''gone.csv'')]\<rparr>" "''map.xlsx''" _
        "office\<lparr>reads := [(ReadCsv, ''gone.csv''), (ReadExcel, ''map.xlsx'')]\<rparr>"
        feature_labels]
      merge_files_errors [of "''export.csv''" office _
        "office\<lparr>reads := [(ReadCsv, ''export.csv'')]\<rparr>" "''gone.xlsx''"
        "JLError ''File not found!''"
        "office\<lparr>reads := [(ReadCsv, ''export.csv''), (ReadExcel, ''gone.xlsx'')]\<rparr>"
        latest_stories]
      merge_files_errors [of "''gone.csv''" office "JLError ''File not found!''"
        "office\<lparr>reads := [(ReadCsv, ''gone.csv'')]\<rparr>" "''gone.xlsx''"
        "JLError ''File not found!''"
        "office\<lparr>reads := [(ReadCsv, ''gone.csv''), (ReadExcel, ''gone.xlsx'')]\<rparr>"]
      merge_files_errors [of "''export.csv''" no_files _ _ "''map.xlsx''" _ _ _ "''out/report''"]
      normalize_gone_office normalize_map_after_gone normalize_export_office
      normalize_gone_map_office g n
    by (simp add: after_last_dot_def)
qed

section \<open>Inference of the latest sprint\<close>

text \<open>
  What the helpers compute in general: the greatest element of a list, the substring
  test, the leftmost match of the period pattern, and the two substitutions.
\<close>

lemma digit_not_newline: "digit d \<Longrightarrow> d \<noteq> CHR 0x0A"
  by (auto simp add: digit_def)

lemma fold_max_ge: "m \<in> set (x # xs) \<Longrightarrow> m \<le> fold max xs (x :: string)"
proof (induction xs arbitrary: x m)
  case Nil
  then show ?case by simp
next
  case (Cons y ys)
  from Cons.prems have "m = x \<or> m = y \<or> m \<in> set ys" by auto
  then have "m \<le> max y x \<or> m \<in> set ys" by (auto simp add: max_def)
  then show ?case
  proof
    assume "m \<le> max y x"
    moreover have "max y x \<le> fold max ys (max y x)"
      by (rule Cons.IH) simp
    ultimately have "m \<le> fold max ys (max y x)"
      by (rule order_trans)
    then show ?thesis by simp
  next
    assume "m \<in> set ys"
    then have "m \<le> fold max ys (max y x)"
      by (intro Cons.IH) simp
    then show ?thesis by simp
  qed
qed

lemma py_max_greatest: "py_max ms = Inr p \<Longrightarrow> m \<in> set ms \<Longrightarrow> m \<le> p"
  using fold_max_ge by (cases ms) auto

lemma py_max_empty: "py_max ms = Inl e \<longleftrightarrow> ms = [] \<and> e = ValueError"
  by (cases ms) auto

lemma contains_iff: "contains s sub \<longleftrightarrow> (\<exists>pre post. s = pre @ sub @ post)"
proof (induction s)
  case Nil
  show ?case by auto
next
  case (Cons c cs)
  have t: "take (length sub) (c # cs) = sub \<longleftrightarrow> (\<exists>post. c # cs = sub @ post)"
  proof
    assume "take (length sub) (c # cs) = sub"
    then have "c # cs = sub @ drop (length sub) (c # cs)"
      by (metis append_take_drop_id)
    then show "\<exists>post. c # cs = sub @ post" ..
  next
    assume "\<exists>post. c # cs = sub @ post"
    then show "take (length sub) (c # cs) = sub" by auto
  qed
  have "(\<exists>pre post. c # cs = pre @ sub @ post)
          \<longleftrightarrow> (\<exists>post. c # cs = sub @ post) \<or> (\<exists>pre post. cs = pre @ sub @ post)"
  proof
    assume "\<exists>pre post. c # cs = pre @ sub @ post"
    then obtain pre post where e: "c # cs = pre @ sub @ post" by blast
    show "(\<exists>post. c # cs = sub @ post) \<or> (\<exists>pre post. cs = pre @ sub @ post)"
    proof (cases pre)
      case Nil
      with e show ?thesis by auto
    next
      case (Cons p pre')
      with e have "cs = pre' @ sub @ post" by simp
      then show ?thesis by blast
    qed
  next
    assume "(\<exists>post. c # cs = sub @ post) \<or> (\<exists>pre post. cs = pre @ sub @ post)"
    then show "\<exists>pre post. c # cs = pre @ sub @ post"
    proof
      assume "\<exists>post. c # cs = sub @ post"
      then obtain post where "c # cs = [] @ sub @ post" by auto
      then show ?thesis by blast
    next
      assume "\<exists>pre post. cs = pre @ sub @ post"
      then obtain pre post where "c # cs = (c # pre) @ sub @ post" by auto
      then show ?thesis by blast
    qed
  qed
  with t Cons.IH show ?case by simp
qed

lemma sub_sprint_end: "digit d \<Longrightarrow> sub_sprint repl (s @ [d]) = s @ repl"
proof (induction s)
  case Nil
  then show ?case by simp
next
  case (Cons c s)
  obtain n cs where e: "s @ [d] = n # cs" by (cases "s @ [d]") auto
  have "\<not> (cs = [] \<and> digit c \<and> n = CHR 0x0A)"
  proof
    assume a: "cs = [] \<and> digit c \<and> n = CHR 0x0A"
    with e have "s @ [d] = [n]" by simp
    then have "n = d" by (cases s) auto
    with a Cons.prems digit_not_newline show False by blast
  qed
  then have "sub_sprint repl (c # n # cs) = c # sub_sprint repl (n # cs)" by auto
  with e Cons show ?case by simp
qed

lemma sub_sprint_newline:
  "digit d \<Longrightarrow> sub_sprint repl (s @ [d, CHR 0x0A]) = s @ repl @ [CHR 0x0A]"
proof (induction s)
  case Nil
  then show ?case by simp
next
  case (Cons c s)
  obtain n cs where e: "s @ [d, CHR 0x0A] = n # cs" and ne: "cs \<noteq> []"
    by (cases s) auto
  then have "sub_sprint repl (c # n # cs) = c # sub_sprint repl (n # cs)" by auto
  with e Cons show ?case by simp
qed

lemma sub_sprint_unchanged:
  assumes "s \<noteq> []" and "\<not> digit (last s)"
    and "\<not> (\<exists>t d. s = t @ [d, CHR 0x0A] \<and> digit d)"
  shows "sub_sprint repl s = s"
  using assms
proof (induction repl s rule: sub_sprint.induct)
  case (1 repl)
  then show ?case by simp
next
  case (2 repl c)
  then show ?case by simp
next
  case (3 repl c n cs)
  show ?case
  proof (cases "cs = [] \<and> digit c \<and> n = CHR 0x0A")
    case True
    then have "c # n # cs = [] @ [c, CHR 0x0A] \<and> digit c" by simp
    with "3.prems"(3) show ?thesis by blast
  next
    case False
    have "\<not> (\<exists>t d. n # cs = t @ [d, CHR 0x0A] \<and> digit d)"
    proof
      assume "\<exists>t d. n # cs = t @ [d, CHR 0x0A] \<and> digit d"
      then obtain t d where "c # n # cs = (c # t) @ [d, CHR 0x0A] \<and> digit d" by auto
      with "3.prems"(3) show False by blast
    qed
    then have ih: "sub_sprint repl (n # cs) = n # cs"
      using "3.IH" [OF False] "3.prems"(2) by simp
    from False have "sub_sprint repl (c # n # cs) = c # sub_sprint repl (n # cs)"
      by auto
    with ih show ?thesis by simp
  qed
qed

lemma pi_at_append: "pi_at m \<Longrightarrow> pi_at (m @ post)"
  by (cases m rule: pi_at.cases) auto

lemma pi_at_take: "pi_at s \<Longrightarrow> pi_at (take 4 s) \<and> length (take 4 s) = 4"
  by (cases s rule: pi_at.cases) auto

lemma sub_pi_step: "\<not> pi_at (p # xs) \<Longrightarrow> sub_pi repl (p # xs) = p # sub_pi repl xs"
proof (cases xs)
  case Nil
  then show ?thesis by simp
next
  case (Cons b ys)
  note xs = Cons
  assume n: "\<not> pi_at (p # xs)"
  show ?thesis
  proof (cases ys)
    case Nil
    with xs show ?thesis by simp
  next
    case (Cons c zs)
    note ys = Cons
    show ?thesis
    proof (cases zs)
      case Nil
      with xs ys show ?thesis by simp
    next
      case (Cons d rest)
      with xs ys n show ?thesis by auto
    qed
  qed
qed

lemma sub_pi_no_match:
  "(\<And>i. \<not> pi_at (drop i s)) \<Longrightarrow> sub_pi repl s = s"
proof (induction s)
  case Nil
  show ?case by simp
next
  case (Cons c cs)
  from Cons.prems [of 0] have "\<not> pi_at (c # cs)" by simp
  then have "sub_pi repl (c # cs) = c # sub_pi repl cs" by (rule sub_pi_step)
  moreover have "sub_pi repl cs = cs"
  proof (rule Cons.IH)
    fix i
    from Cons.prems [of "Suc i"] show "\<not> pi_at (drop i cs)" by simp
  qed
  ultimately show ?case by simp
qed

lemma sub_pi_first_match:
  assumes "pi_at m" and "length m = 4"
    and "\<And>i. i < length pre \<Longrightarrow> \<not> pi_at (drop i (pre @ m @ post))"
  shows "sub_pi repl (pre @ m @ post) = pre @ repl @ sub_pi repl post"
  using assms(3)
proof (induction pre)
  case Nil
  from assms(2) obtain a b c d where m: "m = [a, b, c, d]"
    by (auto simp add: eval_nat_numeral length_Suc_conv)
  with assms(1) show ?case by simp
next
  case (Cons p pre)
  from Cons.prems [of 0] have "\<not> pi_at (p # (pre @ m @ post))" by simp
  then have "sub_pi repl (p # (pre @ m @ post)) = p # sub_pi repl (pre @ m @ post)"
    by (rule sub_pi_step)
  moreover have "sub_pi repl (pre @ m @ post) = pre @ repl @ sub_pi repl post"
  proof (rule Cons.IH)
    fix i
    assume "i < length pre"
    then have "Suc i < length (p # pre)" by simp
    from Cons.prems [OF this] show "\<not> pi_at (drop i (pre @ m @ post))" by simp
  qed
  ultimately show ?case by simp
qed

lemma re_search_pi_leftmost:
  assumes "re_search_pi s = Some m"
  shows "\<exists>pre post. s = pre @ m @ post \<and> pi_at m \<and> length m = 4
           \<and> (\<forall>i < length pre. \<not> pi_at (drop i s))"
  using assms
proof (induction s)
  case Nil
  then show ?case by simp
next
  case (Cons c cs)
  show ?case
  proof (cases "pi_at (c # cs)")
    case True
    with Cons.prems have m: "m = take 4 (c # cs)" by simp
    have "c # cs = [] @ m @ drop 4 (c # cs)"
      unfolding m by (simp only: append_Nil append_take_drop_id)
    moreover from pi_at_take [OF True] m have "pi_at m \<and> length m = 4" by simp
    ultimately show ?thesis
      by (intro exI [of _ "[]"] exI [of _ "drop 4 (c # cs)"]) simp
  next
    case False
    with Cons.prems have "re_search_pi cs = Some m" by simp
    from Cons.IH [OF this] obtain pre post where e: "cs = pre @ m @ post"
      and p: "pi_at m \<and> length m = 4" and l: "\<forall>i < length pre. \<not> pi_at (drop i cs)"
      by blast
    have "\<forall>i < length (c # pre). \<not> pi_at (drop i (c # cs))"
    proof (intro allI impI)
      fix i
      assume i: "i < length (c # pre)"
      show "\<not> pi_at (drop i (c # cs))"
      proof (cases i)
        case 0
        with False show ?thesis by simp
      next
        case (Suc j)
        with i l show ?thesis by simp
      qed
    qed
    with e p show ?thesis
      by (intro exI [of _ "c # pre"] exI [of _ post]) simp
  qed
qed

lemma re_search_pi_none:
  "re_search_pi s = None \<Longrightarrow> \<not> pi_at (drop i s)"
proof (induction s arbitrary: i)
  case Nil
  show ?case by simp
next
  case (Cons c cs)
  then show ?case
    by (cases i) (auto split: if_splits)
qed

text \<open>
  The current period is the greatest of the leftmost matches of all labels; the current
  sub-period is the greatest last character of the labels that contain the period; the
  query is the label of the row with index label 0, with every match of the period
  pattern replaced by the period and a digit at its end replaced by the sub-period.
\<close>

lemma pi_matches_mem:
  "pi_matches vs = Inr ms \<Longrightarrow> m \<in> set ms
   \<Longrightarrow> \<exists>s. Str s \<in> set vs \<and> re_search_pi s = Some m"
proof (induction vs arbitrary: ms rule: pi_matches.induct)
  case 1
  then show ?case by simp
next
  case (2 s vs)
  from "2.prems"(1) obtain m0 ms0 where s: "re_search_pi s = Some m0"
    and r: "pi_matches vs = Inr ms0" and ms: "ms = m0 # ms0"
    by (auto split: option.splits sum.splits)
  show ?case
  proof (cases "m = m0")
    case True
    with s show ?thesis by auto
  next
    case False
    with "2.prems"(2) ms have "m \<in> set ms0" by simp
    with "2.IH" [OF s r] show ?thesis by auto
  qed
qed simp_all

lemma pi_matches_all:
  "pi_matches vs = Inr ms \<Longrightarrow> v \<in> set vs
   \<Longrightarrow> \<exists>s m. v = Str s \<and> re_search_pi s = Some m \<and> m \<in> set ms"
proof (induction vs arbitrary: ms rule: pi_matches.induct)
  case 1
  then show ?case by simp
next
  case (2 s vs)
  from "2.prems"(1) obtain m0 ms0 where s: "re_search_pi s = Some m0"
    and r: "pi_matches vs = Inr ms0" and ms: "ms = m0 # ms0"
    by (auto split: option.splits sum.splits)
  show ?case
  proof (cases "v = Str s")
    case True
    with s ms show ?thesis by auto
  next
    case False
    with "2.prems"(2) have "v \<in> set vs" by simp
    with "2.IH" [OF s r] ms show ?thesis by auto
  qed
qed simp_all

lemma determine_current_pi_greatest:
  assumes "determine_current_pi sprints = Inr p"
  shows "(\<exists>s. Str s \<in> snd ` set sprints \<and> re_search_pi s = Some p)
         \<and> (\<forall>v \<in> snd ` set sprints. \<exists>s m. v = Str s \<and> re_search_pi s = Some m \<and> m \<le> p)"
proof -
  from assms obtain ms where ms: "pi_matches (map snd sprints) = Inr ms"
    and p: "py_max ms = Inr p"
    by (auto simp add: determine_current_pi_def split: sum.splits)
  from pi_matches_mem [OF ms py_max_in [OF p]]
  have a: "\<exists>s. Str s \<in> snd ` set sprints \<and> re_search_pi s = Some p" by auto
  have b: "\<exists>s m. v = Str s \<and> re_search_pi s = Some m \<and> m \<le> p" if "v \<in> snd ` set sprints" for v
  proof -
    from that have "v \<in> set (map snd sprints)" by simp
    from pi_matches_all [OF ms this] obtain s m where "v = Str s" "re_search_pi s = Some m"
      "m \<in> set ms" by blast
    with py_max_greatest [OF p] show ?thesis by blast
  qed
  from a b show ?thesis by blast
qed

lemma last_chars_mem:
  "last_chars p vs = Inr ls \<Longrightarrow> l \<in> set ls
   \<Longrightarrow> \<exists>s. Str s \<in> set vs \<and> contains s p \<and> s \<noteq> [] \<and> l = [last s]"
proof (induction p vs arbitrary: ls rule: last_chars.induct)
  case (1 p)
  then show ?case by simp
next
  case (2 p sprint vs)
  show ?case
  proof (cases "contains sprint p")
    case True
    with "2.prems"(1) obtain ls0 where ne: "sprint \<noteq> []"
      and r: "last_chars p vs = Inr ls0" and ls: "ls = [last sprint] # ls0"
      by (auto split: if_splits sum.splits)
    show ?thesis
    proof (cases "l = [last sprint]")
      case True
      with \<open>contains sprint p\<close> ne show ?thesis by auto
    next
      case False
      with "2.prems"(2) ls have "l \<in> set ls0" by simp
      with "2.IH"(1) [OF True ne r] show ?thesis by auto
    qed
  next
    case False
    with "2.prems" "2.IH"(2) [OF False] show ?thesis by auto
  qed
qed simp_all

lemma last_chars_all:
  "last_chars p vs = Inr ls \<Longrightarrow> v \<in> set vs
   \<Longrightarrow> \<exists>s. v = Str s \<and> (contains s p \<longrightarrow> s \<noteq> [] \<and> [last s] \<in> set ls)"
proof (induction p vs arbitrary: ls rule: last_chars.induct)
  case (1 p)
  then show ?case by simp
next
  case (2 p sprint vs)
  show ?case
  proof (cases "contains sprint p")
    case True
    with "2.prems"(1) obtain ls0 where ne: "sprint \<noteq> []"
      and r: "last_chars p vs = Inr ls0" and ls: "ls = [last sprint] # ls0"
      by (auto split: if_splits sum.splits)
    show ?thesis
    proof (cases "v = Str sprint")
      case True
      with ne ls show ?thesis by auto
    next
      case False
      with "2.prems"(2) have "v \<in> set vs" by simp
      with "2.IH"(1) [OF True ne r] ls show ?thesis by auto
    qed
  next
    case False
    note nc = False
    show ?thesis
    proof (cases "v = Str sprint")
      case True
      with nc show ?thesis by auto
    next
      case False
      with "2.prems"(2) have "v \<in> set vs" by simp
      with "2.prems"(1) nc "2.IH"(2) [OF nc] show ?thesis by auto
    qed
  qed
qed simp_all

lemma determine_latest_sprint_greatest:
  assumes "determine_latest_sprint sprints p = Inr c"
  shows "(\<exists>s. Str s \<in> snd ` set sprints \<and> contains s p \<and> c = [last s])
         \<and> (\<forall>v \<in> snd ` set sprints. \<exists>s. v = Str s \<and> (contains s p \<longrightarrow> [last s] \<le> c))"
proof -
  from assms obtain ls where ls: "last_chars p (map snd sprints) = Inr ls"
    and c: "py_max ls = Inr c"
    by (auto simp add: determine_latest_sprint_def split: sum.splits)
  from last_chars_mem [OF ls py_max_in [OF c]]
  have a: "\<exists>s. Str s \<in> snd ` set sprints \<and> contains s p \<and> c = [last s]" by auto
  have b: "\<exists>s. v = Str s \<and> (contains s p \<longrightarrow> [last s] \<le> c)" if "v \<in> snd ` set sprints" for v
  proof -
    from that have "v \<in> set (map snd sprints)" by simp
    from last_chars_all [OF ls this] obtain s where "v = Str s"
      "contains s p \<longrightarrow> s \<noteq> [] \<and> [last s] \<in> set ls" by blast
    with py_max_greatest [OF c] show ?thesis by blast
  qed
  from a b show ?thesis by blast
qed

lemma compose_query_no_first_row:
  "map_of sprints 0 = None \<Longrightarrow> compose_query sprints current_pi current_sprint = Inl KeyError"
  by (simp add: compose_query_def)

lemma compose_query_substitutes:
  assumes "map_of sprints 0 = Some (Str raw_data)"
    and "CHR 0x5C \<notin> set current_pi" and "CHR 0x5C \<notin> set current_sprint"
  shows "compose_query sprints current_pi current_sprint
           = Inr (sub_sprint current_sprint (sub_pi current_pi raw_data))"
  using assms by (simp add: compose_query_def re_sub_pi_def re_sub_sprint_def re_template_def)

lemma compose_query_template:
  assumes first: "map_of sprints 0 = Some (Str (pre @ m @ mid @ [d]))"
    and m: "pi_at m" "length m = 4"
    and pre: "\<And>i. i < length pre \<Longrightarrow> \<not> pi_at (drop i (pre @ m @ mid @ [d]))"
    and mid: "\<And>i. \<not> pi_at (drop i (mid @ [d]))"
    and d: "digit d"
    and bs: "CHR 0x5C \<notin> set current_pi" "CHR 0x5C \<notin> set current_sprint"
  shows "compose_query sprints current_pi current_sprint
           = Inr (pre @ current_pi @ mid @ current_sprint)"
proof -
  have "sub_pi current_pi (pre @ m @ (mid @ [d]))
          = pre @ current_pi @ sub_pi current_pi (mid @ [d])"
    using m pre by (intro sub_pi_first_match) simp_all
  moreover have "sub_pi current_pi (mid @ [d]) = mid @ [d]"
    using mid by (rule sub_pi_no_match)
  ultimately have "sub_pi current_pi (pre @ m @ mid @ [d]) = (pre @ current_pi @ mid) @ [d]"
    by simp
  moreover have "sub_sprint current_sprint ((pre @ current_pi @ mid) @ [d])
                   = (pre @ current_pi @ mid) @ current_sprint"
    using d by (rule sub_sprint_end)
  ultimately show ?thesis
    using compose_query_substitutes [OF first bs] by simp
qed

lemma inference_examples:
  "determine_current_pi kiwi_labels = Inr ''23.2''"
  "determine_latest_sprint kiwi_labels ''23.2'' = Inr ''3''"
  "compose_query kiwi_labels ''23.2'' ''3'' = Inr ''Team Kiwi PI23.2 Sprint 3''"
  "determine_current_pi shuffled_labels = Inr ''23.2''"
  "determine_latest_sprint shuffled_labels ''23.2'' = Inr ''3''"
  "compose_query shuffled_labels ''23.1'' ''4'' = Inr ''PI23.1 Sprint 4''"
  "compose_query [(0, Str ''PI23.1 and PI23.2 Sprint 12'')] ''24.1'' ''7''
     = Inr ''PI24.1 and PI24.1 Sprint 17''"
  "compose_query [(0, Str ''PI23.1 Backlog'')] ''24.1'' ''7'' = Inr ''PI24.1 Backlog''"
  "determine_current_pi [(0, Str ''Backlog'')] = Inl AttributeError"
  "determine_current_pi [(0, NaN)] = Inl TypeError"
  "determine_current_pi [] = Inl ValueError"
  by (simp_all add: kiwi_labels_def shuffled_labels_def determine_current_pi_def
      determine_latest_sprint_def compose_query_def re_sub_pi_def re_sub_sprint_def
      re_template_def digit_def)



lemma sprint_labels_inference:
  "determine_current_pi sprint_labels = Inr ''23.2''"
  "determine_latest_sprint sprint_labels ''23.2'' = Inr ''3''"
  "compose_query sprint_labels ''23.2'' ''3'' = Inr ''PI23.2 Sprint 3''"
  by (simp_all add: sprint_labels_def determine_current_pi_def determine_latest_sprint_def
      compose_query_def re_sub_pi_def re_sub_sprint_def re_template_def digit_def)

lemma projected_cells:
  "cell_of [''Summary'', ''Issue key'', ''Issue Type'', ''Feature'', ''Sprint'']
     (map (cell_of cols cells) export_columns) ''Issue Type'' = cell_of cols cells ''Issue Type''"
  "cell_of [''Summary'', ''Issue key'', ''Issue Type'', ''Feature'', ''Sprint'']
     (map (cell_of cols cells) export_columns) ''Sprint'' = cell_of cols cells ''Sprint''"
  by (simp_all add: export_columns_def cell_of_def)

lemma story_rows:
  assumes "set export_columns \<subseteq> set (columns df)"
  shows "select_columns export_columns df
           = Inr \<lparr>columns = export_columns,
                  rows = map (\<lambda>(i, cells). (i, map (cell_of (columns df) cells) export_columns))
                           (rows df)\<rparr>"
    and "query_eq ''Issue Type'' ''Story''
           (rename_column ''Custom field (Feature Link)'' ''Feature''
              \<lparr>columns = export_columns,
               rows = map (\<lambda>(i, cells). (i, map (cell_of (columns df) cells) export_columns))
                        (rows df)\<rparr>)
         = \<lparr>columns = [''Summary'', ''Issue key'', ''Issue Type'', ''Feature'', ''Sprint''],
            rows = map (\<lambda>(i, cells). (i, map (cell_of (columns df) cells) export_columns))
                     (filter (\<lambda>(i, cells). cell_of (columns df) cells ''Issue Type'' = Str ''Story'')
                        (rows df))\<rparr>"
proof -
  show "select_columns export_columns df
           = Inr \<lparr>columns = export_columns,
                  rows = map (\<lambda>(i, cells). (i, map (cell_of (columns df) cells) export_columns))
                           (rows df)\<rparr>"
    using assms by (simp add: select_columns_def)
  have c: "map (\<lambda>c. if c = ''Custom field (Feature Link)'' then ''Feature'' else c) export_columns
             = [''Summary'', ''Issue key'', ''Issue Type'', ''Feature'', ''Sprint'']"
    by (simp add: export_columns_def)
  show "query_eq ''Issue Type'' ''Story''
           (rename_column ''Custom field (Feature Link)'' ''Feature''
              \<lparr>columns = export_columns,
               rows = map (\<lambda>(i, cells). (i, map (cell_of (columns df) cells) export_columns))
                        (rows df)\<rparr>)
         = \<lparr>columns = [''Summary'', ''Issue key'', ''Issue Type'', ''Feature'', ''Sprint''],
            rows = map (\<lambda>(i, cells). (i, map (cell_of (columns df) cells) export_columns))
                     (filter (\<lambda>(i, cells). cell_of (columns df) cells ''Issue Type'' = Str ''Story'')
                        (rows df))\<rparr>"
    by (simp add: query_eq_def rename_column_def c filter_map comp_def case_prod_unfold
        projected_cells)
qed

text \<open>
  A table with the five required columns whose story rows carry the three labels of the
  example, the first of them in the first row of the table, is normalized to the one
  story row whose sprint is the composed label.
\<close>

lemma first_row_story_normalized:
  "determine_current_pi sprint_labels = Inr ''23.2''
   \<and> determine_latest_sprint sprint_labels ''23.2'' = Inr ''3''
   \<and> compose_query sprint_labels ''23.2'' ''3'' = Inr ''PI23.2 Sprint 3''
   \<and> (set export_columns \<subseteq> set (columns df)
       \<and> filter (\<lambda>(i, cells). cell_of (columns df) cells ''Issue Type'' = Str ''Story'') (rows df)
           = [(0, c0), (i1, c1), (i2, c2)]
       \<and> cell_of (columns df) c0 ''Sprint'' = Str ''PI23.1 Sprint 4''
       \<and> cell_of (columns df) c1 ''Sprint'' = Str ''PI23.2 Sprint 1''
       \<and> cell_of (columns df) c2 ''Sprint'' = Str ''PI23.2 Sprint 3''
       \<longrightarrow> normalize_export df
             = Inr (Inr \<lparr>columns = [''Summary'', ''Issue key'', ''Issue Type'', ''Feature'', ''Sprint''],
                         rows = [(i2, map (cell_of (columns df) c2) export_columns)]\<rparr>))"
proof (intro conjI impI)
  assume a: "set export_columns \<subseteq> set (columns df)
       \<and> filter (\<lambda>(i, cells). cell_of (columns df) cells ''Issue Type'' = Str ''Story'') (rows df)
           = [(0, c0), (i1, c1), (i2, c2)]
       \<and> cell_of (columns df) c0 ''Sprint'' = Str ''PI23.1 Sprint 4''
       \<and> cell_of (columns df) c1 ''Sprint'' = Str ''PI23.2 Sprint 1''
       \<and> cell_of (columns df) c2 ''Sprint'' = Str ''PI23.2 Sprint 3''"
  then have cols: "set export_columns \<subseteq> set (columns df)" by simp
  let ?stories = "query_eq ''Issue Type'' ''Story''
           (rename_column ''Custom field (Feature Link)'' ''Feature''
              \<lparr>columns = export_columns,
               rows = map (\<lambda>(i, cells). (i, map (cell_of (columns df) cells) export_columns))
                        (rows df)\<rparr>)"
  have st: "?stories
         = \<lparr>columns = [''Summary'', ''Issue key'', ''Issue Type'', ''Feature'', ''Sprint''],
            rows = [(0, map (cell_of (columns df) c0) export_columns),
                    (i1, map (cell_of (columns df) c1) export_columns),
                    (i2, map (cell_of (columns df) c2) export_columns)]\<rparr>"
    using a by (simp add: story_rows(2) [OF cols])
  have sp: "loc_column ''Sprint'' ?stories
              = [(0, Str ''PI23.1 Sprint 4''), (i1, Str ''PI23.2 Sprint 1''),
                 (i2, Str ''PI23.2 Sprint 3'')]"
    using a unfolding st by (simp add: loc_column_def projected_cells)
  have pi: "determine_current_pi (loc_column ''Sprint'' ?stories) = Inr ''23.2''"
    unfolding sp by (simp add: determine_current_pi_def digit_def)
  have ls: "determine_latest_sprint (loc_column ''Sprint'' ?stories) ''23.2'' = Inr ''3''"
    unfolding sp by (simp add: determine_latest_sprint_def)
  have cq: "compose_query (loc_column ''Sprint'' ?stories) ''23.2'' ''3'' = Inr ''PI23.2 Sprint 3''"
    unfolding sp
    by (simp add: compose_query_def re_sub_pi_def re_sub_sprint_def re_template_def digit_def)
  have fin: "query_eq ''Sprint'' ''PI23.2 Sprint 3'' ?stories
              = \<lparr>columns = [''Summary'', ''Issue key'', ''Issue Type'', ''Feature'', ''Sprint''],
                 rows = [(i2, map (cell_of (columns df) c2) export_columns)]\<rparr>"
    using a unfolding st by (simp add: query_eq_def projected_cells)
  show "normalize_export df
             = Inr (Inr \<lparr>columns = [''Summary'', ''Issue key'', ''Issue Type'', ''Feature'', ''Sprint''],
                         rows = [(i2, map (cell_of (columns df) c2) export_columns)]\<rparr>)"
    unfolding normalize_export_def story_rows(1) [OF cols] sum.case Let_def pi ls cq
    by (simp only: fin)
qed (rule sprint_labels_inference)+

lemma sprint_export_normalized:
  "normalize_export (frame_of sprint_header sprint_body) = Inr (Inr latest_stories)"
  using first_row_story_normalized [of "frame_of sprint_header sprint_body"
      "[Str ''JL-1'', Str ''Login page'', Str ''Story'', Str ''F-1'', Str ''PI23.1 Sprint 4'',
        Str ''Done'']"
      2
      "[Str ''JL-3'', Str ''Search'', Str ''Story'', Str ''F-2'', Str ''PI23.2 Sprint 1'',
        Str ''Done'']"
      3
      "[Str ''JL-4'', Str ''Export'', Str ''Story'', Str ''F-3'', Str ''PI23.2 Sprint 3'',
        Str ''Open'']"]
  by (simp add: frame_of_def sprint_header_def sprint_body_def export_columns_def cell_of_def
      latest_stories_def)

text \<open>
  Claim C3 does not hold of the code. On the list of the three labels the helpers return
  \<open>23.2\<close>, \<open>3\<close> and \<open>PI23.2 Sprint 3\<close>; the maxima do not depend on the order of the
  labels, and a first label with a longer text keeps its text in the query. A table whose
  first row is a story with the first label is normalized to the one row of the latest
  sprint. Inside the normalizer the labels are a \<^verbatim>\<open>Series\<close> that keeps the index labels
  of the table. With a task in the first row the story rows carry the same three Sprint
  values under the labels 1, 2 and 3, \<^verbatim>\<open>sprints[0]\<close> finds no label 0 and raises
  \<^verbatim>\<open>KeyError\<close>, and the exception leaves the normalizer and \<^verbatim>\<open>generate_csv\<close>: nothing is
  filtered.
\<close>

theorem latest_sprint_task_above:
  "determine_current_pi sprint_labels = Inr ''23.2''
   \<and> determine_latest_sprint sprint_labels ''23.2'' = Inr ''3''
   \<and> compose_query sprint_labels ''23.2'' ''3'' = Inr ''PI23.2 Sprint 3''
   \<and> determine_current_pi shuffled_labels = Inr ''23.2''
   \<and> determine_latest_sprint shuffled_labels ''23.2'' = Inr ''3''
   \<and> compose_query kiwi_labels ''23.2'' ''3'' = Inr ''Team Kiwi PI23.2 Sprint 3''
   \<and> normalize_export (frame_of sprint_header sprint_body) = Inr (Inr latest_stories)
   \<and> loc_column ''Sprint'' (query_eq ''Issue Type'' ''Story'' (frame_of sprint_header review_body))
       = [(1, Str ''PI23.1 Sprint 4''), (2, Str ''PI23.2 Sprint 1''), (3, Str ''PI23.2 Sprint 3'')]
   \<and> compose_query
        [(1, Str ''PI23.1 Sprint 4''), (2, Str ''PI23.2 Sprint 1''), (3, Str ''PI23.2 Sprint 3'')]
        ''23.2'' ''3'' = Inl KeyError
   \<and> normalize_export (frame_of sprint_header review_body) = Inl KeyError
   \<and> fst (generate_csv ''export.csv'' ''map.xlsx'' ''out/report'' review) = Inl KeyError"
proof -
  have a: "loc_column ''Sprint''
             (query_eq ''Issue Type'' ''Story'' (frame_of sprint_header review_body))
       = [(1, Str ''PI23.1 Sprint 4''), (2, Str ''PI23.2 Sprint 1''), (3, Str ''PI23.2 Sprint 3'')]"
    by (simp add: loc_column_def query_eq_def frame_of_def sprint_header_def review_body_def
        cell_of_def)
  have b: "compose_query
        [(1, Str ''PI23.1 Sprint 4''), (2, Str ''PI23.2 Sprint 1''), (3, Str ''PI23.2 Sprint 3'')]
        ''23.2'' ''3'' = Inl KeyError"
    by (simp add: compose_query_def)
  have c: "normalize_export (frame_of sprint_header review_body) = Inl KeyError"
    by (simp add: frame_of_def sprint_header_def review_body_def normalize_export_def
        select_columns_def export_columns_def rename_column_def query_eq_def loc_column_def
        cell_of_def determine_current_pi_def determine_latest_sprint_def compose_query_def
        digit_def Let_def)
  have d: "fst (generate_csv ''export.csv'' ''map.xlsx'' ''out/report'' review) = Inl KeyError"
    by (simp add: generate_csv_def merge_files_def normalize_jira_export_file_def
        load_data_cases after_last_dot_def pd_read_def review_def c)
  from sprint_labels_inference inference_examples(1-5) sprint_export_normalized a b c d
  show ?thesis by simp
qed

section \<open>The exported file and the returned text\<close>

text \<open>
  Claim C8. When the merge returns a table and the path made of the output name and
  \<open>.csv\<close> can be written, \<^verbatim>\<open>generate_csv\<close> stores there a header line with
  \<open>Issue Type\<close>, \<open>Summary\<close>, \<open>Label\<close> in this order and one line of these three cells
  per row, without the index labels, and returns \<open>CSV file generated successfully!\<close>.
  When the merge returns an error, \<^verbatim>\<open>generate_csv\<close> returns its message.
\<close>

theorem generate_csv_result:
  "(merge_files jira_file map_file w = (Inr (Inr t), w') \<and> writable w' (export_file_name @ ''.csv'')
      \<longrightarrow>
    generate_csv jira_file map_file export_file_name w
      = (Inr ''CSV file generated successfully!'',
         w'\<lparr>disk := (disk w')(export_file_name @ ''.csv'' \<mapsto>
              CsvFile [''Issue Type'', ''Summary'', ''Label'']
                (map (\<lambda>(i, cells). [cell_of (columns t) cells ''Issue Type'',
                                      cell_of (columns t) cells ''Summary'',
                                      cell_of (columns t) cells ''Label''])
                   (rows t)))\<rparr>))
   \<and> (merge_files jira_file map_file w = (Inr (Inl error), w') \<longrightarrow>
        generate_csv jira_file map_file export_file_name w = (Inr (message error), w'))"
proof (intro conjI impI)
  assume a: "merge_files jira_file map_file w = (Inr (Inr t), w')
             \<and> writable w' (export_file_name @ ''.csv'')"
  then have c: "columns t
           = [''Summary'', ''Issue key'', ''Issue Type'', ''Feature'', ''Sprint'', ''Label'']"
    using merge_files_columns by blast
  have sub: "set output_columns \<subseteq> set (columns t)"
    unfolding c output_columns_def by simp
  show "generate_csv jira_file map_file export_file_name w
      = (Inr ''CSV file generated successfully!'',
         w'\<lparr>disk := (disk w')(export_file_name @ ''.csv'' \<mapsto>
              CsvFile [''Issue Type'', ''Summary'', ''Label'']
                (map (\<lambda>(i, cells). [cell_of (columns t) cells ''Issue Type'',
                                      cell_of (columns t) cells ''Summary'',
                                      cell_of (columns t) cells ''Label''])
                   (rows t)))\<rparr>)"
    using a sub by (simp add: generate_csv_def to_csv_def) (simp add: output_columns_def)
next
  assume "merge_files jira_file map_file w = (Inr (Inl error), w')"
  then show "generate_csv jira_file map_file export_file_name w = (Inr (message error), w')"
    by (simp add: generate_csv_def)
qed

lemma merge_files_gone:
  "merge_files ''gone.csv'' ''map.xlsx'' office
     = (Inr (Inl (JLError ''File not found! (from Jira extraction file)'')),
        office\<lparr>reads := [(ReadCsv, ''gone.csv''), (ReadExcel, ''map.xlsx'')]\<rparr>)"
  by (simp add: merge_files_def normalize_gone_office normalize_map_after_gone
      merge_normalized_def)

theorem generate_csv_result_witness:
  "merge_files ''export.csv'' ''map.xlsx'' office
     = (Inr (Inr labelled_stories),
        office\<lparr>reads := [(ReadCsv, ''export.csv''), (ReadExcel, ''map.xlsx'')]\<rparr>)
   \<and> generate_csv ''export.csv'' ''map.xlsx'' ''out/report'' office
     = (Inr ''CSV file generated successfully!'',
        office\<lparr>reads := [(ReadCsv, ''export.csv''), (ReadExcel, ''map.xlsx'')],
               disk := (disk office)(''out/report.csv'' \<mapsto>
                 CsvFile [''Issue Type'', ''Summary'', ''Label'']
                   [[Str ''Story'', Str ''JL-4 Export'', Str ''Reports'']])\<rparr>)
   \<and> generate_csv ''gone.csv'' ''map.xlsx'' ''out/report'' office
     = (Inr ''File not found! (from Jira extraction file)'',
        office\<lparr>reads := [(ReadCsv, ''gone.csv''), (ReadExcel, ''map.xlsx'')]\<rparr>)"
proof -
  have w: "writable (office\<lparr>reads := [(ReadCsv, ''export.csv''), (ReadExcel, ''map.xlsx'')]\<rparr>)
             (''out/report'' @ ''.csv'')"
    by (simp add: office_def)
  show ?thesis
    using generate_csv_result [of "''export.csv''" "''map.xlsx''" office labelled_stories
        "office\<lparr>reads := [(ReadCsv, ''export.csv''), (ReadExcel, ''map.xlsx'')]\<rparr>"
        "''out/report''"]
      generate_csv_result [of "''gone.csv''" "''map.xlsx''" office _
        "office\<lparr>reads := [(ReadCsv, ''gone.csv''), (ReadExcel, ''map.xlsx'')]\<rparr>"
        "''out/report''" "JLError ''File not found! (from Jira extraction file)''"]
      merge_files_office merge_files_gone w
    by (simp add: labelled_stories_def cell_of_def)
qed

text \<open>
  Claim C1 does not hold of the code. An export whose only row is a task passes the
  column validation and leaves no story: \<^verbatim>\<open>max\<close> of the empty list raises
  \<^verbatim>\<open>ValueError\<close> in \<^verbatim>\<open>_determine_current_pi\<close>, and the exception leaves
  \<^verbatim>\<open>generate_csv\<close> and \<^verbatim>\<open>generate\<close>. An export whose first row is a task leaves no
  row with the label 0, and \<^verbatim>\<open>sprints[0]\<close> raises \<^verbatim>\<open>KeyError\<close> in \<^verbatim>\<open>_compose_query\<close>.
\<close>

theorem generate_csv_raises:
  "fst (generate_csv ''export.csv'' ''map.xlsx'' ''out/report'' backlog) = Inl ValueError
   \<and> fst (generate ''export.csv'' ''map.xlsx'' ''out'' ''report'' backlog) = Inl ValueError
   \<and> fst (generate_csv ''export.csv'' ''map.xlsx'' ''out/report'' planning) = Inl KeyError"
  by (simp add: generate_def generate_csv_def merge_files_def normalize_jira_export_file_def
      load_data_cases after_last_dot_def pd_read_def backlog_def planning_def task_export_def
      task_first_export_def frame_of_def normalize_export_def select_columns_def
      export_columns_def rename_column_def query_eq_def loc_column_def cell_of_def
      determine_current_pi_def determine_latest_sprint_def compose_query_def digit_def Let_def)

end
